theory Spec2Isabelle
  imports Complex_Main "HOL-Library.AList"
begin

section \<open>Python values, dictionaries and exceptions\<close>

text \<open>
  The values the client manager handles without looking inside them (JSON bodies, tool
  arguments, tool results) are Python objects. \<open>pyval\<close> covers the JSON-shaped ones.
  A \<open>dict\<close> is an association list in insertion order, read with \<open>map_of\<close> and written
  with \<open>AList.update\<close>, which keeps the position of a key that is already there and
  appends a new one, as a Python dict does.
\<close>

datatype pyval =
    PNone
  | PBool bool
  | PInt int
  | PFloat real
  | PStr string
  | PList "pyval list"
  | PDict "(string \<times> pyval) list"

type_synonym pydict = "(string \<times> pyval) list"

text \<open>Python truthiness, as \<open>if x:\<close> and \<open>any(...)\<close> read a value.\<close>

fun truthy :: "pyval \<Rightarrow> bool" where
  "truthy PNone = False"
| "truthy (PBool b) = b"
| "truthy (PInt i) = (i \<noteq> 0)"
| "truthy (PFloat r) = (r \<noteq> 0)"
| "truthy (PStr s) = (s \<noteq> [])"
| "truthy (PList xs) = (xs \<noteq> [])"
| "truthy (PDict d) = (d \<noteq> [])"

text \<open>
  Exceptions. \<open>Exception m\<close> is an exception whose \<open>str\<close> is \<open>m\<close>: the ones the
  manager raises itself, and the ones the HTTP client and the MCP client raise (their class
  is not looked at anywhere, only \<open>str(e)\<close>). \<open>KeyError k\<close> is a failed \<open>d[k]\<close>.
\<close>

datatype exn = Exception string | KeyError string

fun str_exn :: "exn \<Rightarrow> string" where
  "str_exn (Exception m) = m"
| "str_exn (KeyError k) = [CHR 0x27] @ k @ [CHR 0x27]"

text \<open>\<open>d[k]\<close> on a plain dict, and \<open>d.get(k, default)\<close>.\<close>

definition dict_getitem :: "(string \<times> 'v) list \<Rightarrow> string \<Rightarrow> exn + 'v" where
  "dict_getitem d k = (case map_of d k of None \<Rightarrow> Inl (KeyError k) | Some v \<Rightarrow> Inr v)"

definition dict_get :: "('k \<times> 'v) list \<Rightarrow> 'k \<Rightarrow> 'v \<Rightarrow> 'v" where
  "dict_get d k dflt = (case map_of d k of None \<Rightarrow> dflt | Some v \<Rightarrow> v)"

text \<open>
  \<open>d[k]\<close> on a \<open>defaultdict\<close>: a missing key is first inserted with the default, so the
  read returns the value and the dictionary it leaves behind.
\<close>

definition dd_getitem :: "'v \<Rightarrow> ('k \<times> 'v) list \<Rightarrow> 'k \<Rightarrow> 'v \<times> ('k \<times> 'v) list" where
  "dd_getitem dflt d k =
     (case map_of d k of
        Some v \<Rightarrow> (v, d)
      | None \<Rightarrow> (dflt, AList.update k dflt d))"

section \<open>MCPConnectionPool\<close>

text \<open>
  A \<open>Client\<close> object is known by its identity: the pool compares clients with \<open>in\<close> on a
  set and never looks at their contents. The objects \<open>_create_connection\<close> has
  constructed are kept in \<open>clients\<close>, in creation order, and a client is its position
  there, so that a newly constructed client differs from every earlier one.
\<close>

type_synonym client = nat

record client_obj =
  client_url :: string
  client_auth :: "pyval option"

record server_cfg =
  cfg_url :: string
  cfg_config :: pydict

record pool =
  max_connections_per_server :: int
  connection_timeout :: int
  pools :: "(string \<times> client list) list"
  active_connections :: "(string \<times> client set) list"
  server_configs :: "(string \<times> server_cfg) list"
  last_health_check :: "(string \<times> int) list"
  clients :: "client_obj list"

definition init_pool :: "int \<Rightarrow> int \<Rightarrow> pool" where
  "init_pool max_conn tmo =
     \<lparr> max_connections_per_server = max_conn,
       connection_timeout = tmo,
       pools = [],
       active_connections = [],
       server_configs = [],
       last_health_check = [],
       clients = [] \<rparr>"

text \<open>\<open>MCPConnectionPool()\<close>: the defaults of \<open>__init__\<close>.\<close>

definition default_pool :: pool where
  "default_pool = init_pool 5 30"

text \<open>The idle list and the active set of a provider, as a read of the two defaultdicts sees them.\<close>

definition idle_of :: "pool \<Rightarrow> string \<Rightarrow> client list" where
  "idle_of p sid = dict_get (pools p) sid []"

definition active_of :: "pool \<Rightarrow> string \<Rightarrow> client set" where
  "active_of p sid = dict_get (active_connections p) sid {}"

text \<open>
  \<open>_create_connection\<close>: \<open>auth\<close> is \<open>config["auth"]\<close> when the key is there, and the
  client is built with it when it is truthy. Building a \<open>Client\<close> opens no connection
  (that is \<open>__aenter__\<close>, in \<open>call_tool\<close>) and is taken to return. The new client is
  the next position of \<open>clients\<close>.
\<close>

definition create_connection :: "string \<Rightarrow> string \<Rightarrow> pydict \<Rightarrow> pool \<Rightarrow> client \<times> pool" where
  "create_connection server_id server_url config p =
     (let auth = (case map_of config ''auth'' of None \<Rightarrow> PNone | Some a \<Rightarrow> a);
          obj = (if truthy auth
                 then \<lparr> client_url = server_url, client_auth = Some auth \<rparr>
                 else \<lparr> client_url = server_url, client_auth = None \<rparr>)
      in (length (clients p), p\<lparr> clients := clients p @ [obj] \<rparr>))"

text \<open>
  \<open>get_connection\<close>, under the lock: store the server's configuration, reuse the last
  idle client (\<open>list.pop()\<close>) if there is one, else construct a client while the active
  set is below the limit, else raise. The pool after a raise is returned too: the
  configuration has been stored and both defaultdicts have been read by then.
\<close>

definition get_connection :: "string \<Rightarrow> string \<Rightarrow> pydict \<Rightarrow> pool \<Rightarrow> (exn + client) \<times> pool" where
  "get_connection server_id server_url config p =
     (let p1 = p\<lparr> server_configs :=
                   AList.update server_id \<lparr> cfg_url = server_url, cfg_config = config \<rparr> (server_configs p) \<rparr>;
          (idle, pools1) = dd_getitem [] (pools p1) server_id;
          p2 = p1\<lparr> pools := pools1 \<rparr>
      in if idle \<noteq> [] then
           let client = last idle;
               p3 = p2\<lparr> pools := AList.update server_id (butlast idle) (pools p2) \<rparr>;
               (act, active1) = dd_getitem {} (active_connections p3) server_id
           in (Inr client, p3\<lparr> active_connections := AList.update server_id (insert client act) active1 \<rparr>)
         else
           let (act, active1) = dd_getitem {} (active_connections p2) server_id;
               p3 = p2\<lparr> active_connections := active1 \<rparr>
           in if int (card act) < max_connections_per_server p3 then
                let (client, p4) = create_connection server_id server_url config p3;
                    (act', active2) = dd_getitem {} (active_connections p4) server_id
                in (Inr client, p4\<lparr> active_connections := AList.update server_id (insert client act') active2 \<rparr>)
              else (Inl (Exception (''Connection pool exhausted for server '' @ server_id)), p3))"

text \<open>
  \<open>release_connection\<close>, under the lock: a client that is in the provider's active set
  is removed from it and appended to the idle list; any other client changes nothing but
  the defaultdict key the membership test creates.
\<close>

definition release_connection :: "string \<Rightarrow> client \<Rightarrow> pool \<Rightarrow> pool" where
  "release_connection server_id client p =
     (let (act, active1) = dd_getitem {} (active_connections p) server_id;
          p1 = p\<lparr> active_connections := active1 \<rparr>
      in if client \<in> act then
           let p2 = p1\<lparr> active_connections := AList.update server_id (act - {client}) (active_connections p1) \<rparr>;
               (idle, pools1) = dd_getitem [] (pools p2) server_id
           in p2\<lparr> pools := AList.update server_id (idle @ [client]) pools1 \<rparr>
         else p1)"

text \<open>
  \<open>close_all_connections\<close>: the servers are the one given (a non-empty string) or the
  keys of \<open>_pools\<close>; for each, the idle list and the active set are cleared.
\<close>

definition close_server :: "string \<Rightarrow> pool \<Rightarrow> pool" where
  "close_server sid p =
     p\<lparr> pools := AList.update sid [] (pools p),
        active_connections := AList.update sid {} (active_connections p) \<rparr>"

definition close_all_connections :: "string option \<Rightarrow> pool \<Rightarrow> pool" where
  "close_all_connections server_id p =
     (let servers = (case server_id of
                       Some s \<Rightarrow> if s \<noteq> [] then [s] else map fst (pools p)
                     | None \<Rightarrow> map fst (pools p))
      in fold close_server servers p)"

text \<open>
  The outcome of an HTTP GET made with \<open>httpx\<close>: the call raises, or it returns a
  response with a status code, a body that \<open>response.json()\<close> decodes (or fails to),
  and the elapsed time \<open>response.elapsed.total_seconds()\<close>. \<open>'j\<close> is the type of the
  decoded body. The request carries what the caller passes: URL, query parameters, timeout
  in seconds.
\<close>

record http_request =
  req_url :: string
  req_params :: pydict
  req_timeout :: "real option"

datatype 'j http_outcome =
    HttpRaises exn
  | HttpReturns (status_code: int) (json: "exn + 'j") (elapsed_total_seconds: real)

text \<open>
  What \<open>health_check\<close> reads from outside: the HTTP GET and the clock
  (\<open>datetime.utcnow()\<close>, in microseconds since \<open>datetime.min\<close>).
\<close>

record health_env =
  health_http_get :: "http_request \<Rightarrow> unit http_outcome"
  health_utcnow :: int

text \<open>
  \<open>health_check\<close>: an unknown server is reported without a request; otherwise GET
  \<open>{url}/health\<close> with \<open>timeout=5.0\<close>; status 200 is healthy, any other status is
  unhealthy, and an exception is reported with its text.
\<close>

definition health_check :: "health_env \<Rightarrow> string \<Rightarrow> pool \<Rightarrow> pydict \<times> pool" where
  "health_check env server_id p =
     (case map_of (server_configs p) server_id of
        None \<Rightarrow> ([(''status'', PStr ''error''), (''message'', PStr ''Server not configured'')], p)
      | Some config \<Rightarrow>
          (case health_http_get env
                  \<lparr> req_url = cfg_url config @ ''/health'', req_params = [], req_timeout = Some 5 \<rparr> of
             HttpRaises e \<Rightarrow> ([(''status'', PStr ''error''), (''message'', PStr (str_exn e))], p)
           | HttpReturns code body elapsed \<Rightarrow>
               let p1 = p\<lparr> last_health_check :=
                             AList.update server_id (health_utcnow env) (last_health_check p) \<rparr>
               in if code = 200
                  then ([(''status'', PStr ''healthy''), (''response_time'', PFloat elapsed)], p1)
                  else ([(''status'', PStr ''unhealthy''), (''status_code'', PInt code)], p1)))"

text \<open>
  The pools that a sequence of pool operations can produce from a newly constructed one.
  A failed \<open>get_connection\<close> is a step too (it leaves its pool behind), and
  \<open>release_connection\<close> may be called with any client.
\<close>

inductive pool_reachable :: "pool \<Rightarrow> bool" where
  reach_init: "pool_reachable (init_pool max_conn tmo)"
| reach_get: "pool_reachable p \<Longrightarrow> pool_reachable (snd (get_connection sid url cfg p))"
| reach_release: "pool_reachable p \<Longrightarrow> pool_reachable (release_connection sid c p)"
| reach_close: "pool_reachable p \<Longrightarrow> pool_reachable (close_all_connections osid p)"
| reach_health: "pool_reachable p \<Longrightarrow> pool_reachable (snd (health_check env sid p))"

text \<open>The invariant of one provider: no client twice in the idle list, none both idle and active.\<close>

definition pool_inv :: "pool \<Rightarrow> string \<Rightarrow> bool" where
  "pool_inv p sid \<longleftrightarrow> distinct (idle_of p sid) \<and> set (idle_of p sid) \<inter> active_of p sid = {}"

text \<open>
  What holds of every reachable pool, for every provider: the active set is finite, the
  provider's invariant holds, idle and active clients together never exceed the limit,
  and every client in the pool is one that \<open>_create_connection\<close> has constructed.
\<close>

definition pool_ok :: "pool \<Rightarrow> bool" where
  "pool_ok p \<longleftrightarrow>
     (\<forall>sid. finite (active_of p sid) \<and> pool_inv p sid \<and>
        int (length (idle_of p sid) + card (active_of p sid)) \<le> max 0 (max_connections_per_server p) \<and>
        (\<forall>c \<in> set (idle_of p sid) \<union> active_of p sid. c < length (clients p)))"

section \<open>MCPRequest, MCPResponse and MCPClientManager\<close>

record mcp_request =
  tool_name :: string
  parameters :: pydict
  timeout :: "int option"

record mcp_response =
  success :: bool
  result :: "pyval option"
  error :: "string option"
  metadata :: pydict

text \<open>
  A server descriptor is the JSON object the registry returns for \<open>/servers/{id}\<close>. The
  manager reads three of its keys: \<open>url\<close> (passed on as \<open>server_url: str\<close>),
  \<open>config\<close> (passed on as \<open>config: Dict[str, Any]\<close>) and \<open>name\<close> (any value). The
  record holds each of them when the key is present, typed as the pool's signature and the
  registry's \<open>MCPServerResponse\<close> type them, and the other keys as they are. The object
  is truthy when it has a key.
\<close>

record server_data =
  sd_name :: "pyval option"
  sd_url :: "string option"
  sd_config :: "pydict option"
  sd_other :: pydict

definition sd_truthy :: "server_data \<Rightarrow> bool" where
  "sd_truthy d \<longleftrightarrow> sd_name d \<noteq> None \<or> sd_url d \<noteq> None \<or> sd_config d \<noteq> None \<or> sd_other d \<noteq> []"

text \<open>Times are microseconds since \<open>datetime.min\<close>; a \<open>timedelta\<close> is a number of microseconds.\<close>

definition datetime_min :: int where
  "datetime_min = 0"

definition timedelta_minutes :: "int \<Rightarrow> int" where
  "timedelta_minutes n = n * 60000000"

record manager =
  registry_url :: string
  connection_pool :: pool
  server_cache :: "(string \<times> server_data) list"
  cache_ttl :: int
  last_cache_update :: int
  user_servers :: "(string \<times> pydict list) list"

definition init_manager :: "string \<Rightarrow> manager" where
  "init_manager url =
     \<lparr> registry_url = url,
       connection_pool = default_pool,
       server_cache = [],
       cache_ttl = timedelta_minutes 5,
       last_cache_update = datetime_min,
       user_servers = [] \<rparr>"

text \<open>
  \<open>initialize_user_servers\<close>: on status 200 the decoded list replaces the user's entry.
\<close>

definition initialize_user_servers ::
  "(http_request \<Rightarrow> pydict list http_outcome) \<Rightarrow> string \<Rightarrow> manager \<Rightarrow> (exn + bool) \<times> manager" where
  "initialize_user_servers http_get user_id m =
     (case http_get \<lparr> req_url = registry_url m @ ''/users/servers'',
                      req_params = [(''user_id'', PStr user_id), (''enabled_only'', PBool True)],
                      req_timeout = None \<rparr> of
        HttpRaises e \<Rightarrow> (Inl e, m)
      | HttpReturns code body elapsed \<Rightarrow>
          if code = 200 then
            (case body of
               Inl e \<Rightarrow> (Inl e, m)
             | Inr servers \<Rightarrow> (Inr True, m\<lparr> user_servers := AList.update user_id servers (user_servers m) \<rparr>))
          else (Inr False, m))"

text \<open>
  What one \<open>call_tool\<close> reads from outside: the clock at the cache check, the registry's
  answer to the GET, the clock when the cache is written, the MCP client's
  \<open>is_connected()\<close>, \<open>__aenter__()\<close> (\<open>Some e\<close>: it raises \<open>e\<close>) and \<open>call_tool\<close>,
  and \<open>datetime.utcnow().isoformat()\<close> when the success response is built.
\<close>

record tool_result =
  attr_content :: "pyval option"
  attr_text :: "pyval option"
  whole_result :: pyval

record call_env =
  utcnow_check :: int
  http_get :: "http_request \<Rightarrow> server_data http_outcome"
  utcnow_store :: int
  is_connected :: "client \<Rightarrow> bool"
  aenter :: "client \<Rightarrow> exn option"
  client_call_tool :: "client \<Rightarrow> string \<Rightarrow> pydict \<Rightarrow> exn + tool_result"
  utcnow_isoformat :: string

text \<open>
  \<open>_get_server_config\<close>, second half: the GET to the registry. Status 200 writes the
  descriptor into the cache and sets the one \<open>_last_cache_update\<close>; any other status
  returns \<open>None\<close>; an exception of the GET or of \<open>json()\<close> propagates.
\<close>

definition fetch_server_config :: "call_env \<Rightarrow> string \<Rightarrow> manager \<Rightarrow> (exn + server_data option) \<times> manager" where
  "fetch_server_config env server_id m =
     (case http_get env \<lparr> req_url = registry_url m @ ''/servers/'' @ server_id,
                          req_params = [], req_timeout = None \<rparr> of
        HttpRaises e \<Rightarrow> (Inl e, m)
      | HttpReturns code body elapsed \<Rightarrow>
          if code = 200 then
            (case body of
               Inl e \<Rightarrow> (Inl e, m)
             | Inr data \<Rightarrow>
                 (Inr (Some data),
                  m\<lparr> server_cache := AList.update server_id data (server_cache m),
                     last_cache_update := utcnow_store env \<rparr>))
          else (Inr None, m))"

text \<open>
  \<open>_get_server_config\<close>: a cached descriptor is returned while the time since
  \<open>_last_cache_update\<close> is below the TTL; otherwise the registry is asked.
\<close>

definition get_server_config :: "call_env \<Rightarrow> string \<Rightarrow> manager \<Rightarrow> (exn + server_data option) \<times> manager" where
  "get_server_config env server_id m =
     (case map_of (server_cache m) server_id of
        Some cached \<Rightarrow>
          if utcnow_check env - last_cache_update m < cache_ttl m
          then (Inr (Some cached), m)
          else fetch_server_config env server_id m
      | None \<Rightarrow> fetch_server_config env server_id m)"

text \<open>
  \<open>_user_has_access\<close>: \<open>any\<close> over the user's list (empty when none is loaded), left
  to right, stopping at the first entry that matches; \<open>s["server_id"]\<close> raises on an
  entry without that key.
\<close>

fun any_enabled :: "string \<Rightarrow> pydict list \<Rightarrow> exn + bool" where
  "any_enabled server_id [] = Inr False"
| "any_enabled server_id (s # ss) =
     (case dict_getitem s ''server_id'' of
        Inl e \<Rightarrow> Inl e
      | Inr v \<Rightarrow>
          if v = PStr server_id \<and> truthy (dict_get s ''enabled'' (PBool False))
          then Inr True
          else any_enabled server_id ss)"

definition user_has_access :: "string \<Rightarrow> string \<Rightarrow> manager \<Rightarrow> exn + bool" where
  "user_has_access user_id server_id m = any_enabled server_id (dict_get (user_servers m) user_id [])"

text \<open>\<open>_execute_tool\<close>: the client's call, its result unpacked, its exception rewrapped.\<close>

definition execute_tool :: "call_env \<Rightarrow> client \<Rightarrow> mcp_request \<Rightarrow> exn + pyval" where
  "execute_tool env client request =
     (case client_call_tool env client (tool_name request) (parameters request) of
        Inl e \<Rightarrow> Inl (Exception (''Tool execution failed: '' @ str_exn e))
      | Inr r \<Rightarrow>
          Inr (case attr_content r of
                 Some c \<Rightarrow> c
               | None \<Rightarrow> (case attr_text r of Some t \<Rightarrow> t | None \<Rightarrow> whole_result r)))"

text \<open>The response of the outer \<open>except Exception as e\<close> of \<open>call_tool\<close>.\<close>

definition error_response :: "exn \<Rightarrow> string \<Rightarrow> mcp_response" where
  "error_response e server_id =
     \<lparr> success = False, result = None, error = Some (str_exn e),
       metadata = [(''server_id'', PStr server_id)] \<rparr>"

text \<open>
  \<open>call_tool\<close> up to and including \<open>get_connection\<close>: either the call is over (\<open>Inl\<close>:
  server not found, access denied, or an exception caught by the outer handler), or a
  client has been acquired (\<open>Inr\<close>: the descriptor, the client and the manager so far).
\<close>

definition call_tool_acquire ::
  "call_env \<Rightarrow> string \<Rightarrow> string \<Rightarrow> manager \<Rightarrow> (mcp_response \<times> manager) + (server_data \<times> client \<times> manager)" where
  "call_tool_acquire env user_id server_id m =
     (case get_server_config env server_id m of
        (Inl e, m1) \<Rightarrow> Inl (error_response e server_id, m1)
      | (Inr None, m1) \<Rightarrow>
          Inl (\<lparr> success = False, result = None,
                 error = Some (''Server '' @ server_id @ '' not found''), metadata = [] \<rparr>, m1)
      | (Inr (Some server_config), m1) \<Rightarrow>
          if \<not> sd_truthy server_config then
            Inl (\<lparr> success = False, result = None,
                   error = Some (''Server '' @ server_id @ '' not found''), metadata = [] \<rparr>, m1)
          else
            (case user_has_access user_id server_id m1 of
               Inl e \<Rightarrow> Inl (error_response e server_id, m1)
             | Inr False \<Rightarrow>
                 Inl (\<lparr> success = False, result = None,
                        error = Some (''User '' @ user_id @ '' does not have access to server '' @ server_id),
                        metadata = [] \<rparr>, m1)
             | Inr True \<Rightarrow>
                 (case sd_url server_config of
                    None \<Rightarrow> Inl (error_response (KeyError ''url'') server_id, m1)
                  | Some url \<Rightarrow>
                      (case get_connection server_id url
                              (case sd_config server_config of None \<Rightarrow> [] | Some c \<Rightarrow> c)
                              (connection_pool m1) of
                         (Inl e, p1) \<Rightarrow> Inl (error_response e server_id, m1\<lparr> connection_pool := p1 \<rparr>)
                       | (Inr client, p1) \<Rightarrow> Inr (server_config, client, m1\<lparr> connection_pool := p1 \<rparr>)))))"

text \<open>
  The body of the inner \<open>try\<close>: connect the client if it is not connected, execute the
  tool, build the success response. An exception leaves through \<open>Inl\<close>.
\<close>

definition invoke_on_client ::
  "call_env \<Rightarrow> string \<Rightarrow> server_data \<Rightarrow> client \<Rightarrow> mcp_request \<Rightarrow> exn + mcp_response" where
  "invoke_on_client env server_id server_config client request =
     (case (if \<not> is_connected env client then aenter env client else None) of
        Some e \<Rightarrow> Inl e
      | None \<Rightarrow>
          (case execute_tool env client request of
             Inl e \<Rightarrow> Inl e
           | Inr r \<Rightarrow>
               Inr \<lparr> success = True, result = Some r, error = None,
                     metadata = [(''server_id'', PStr server_id),
                                 (''server_name'', (case sd_name server_config of None \<Rightarrow> PNone | Some n \<Rightarrow> n)),
                                 (''execution_time'', PStr (utcnow_isoformat env))] \<rparr>))"

text \<open>
  \<open>call_tool\<close>: after the acquisition the inner body runs, the \<open>finally\<close> releases the
  client whatever the body did, and an exception of the body reaches the outer handler.
\<close>

definition call_tool :: "call_env \<Rightarrow> string \<Rightarrow> string \<Rightarrow> mcp_request \<Rightarrow> manager \<Rightarrow> mcp_response \<times> manager" where
  "call_tool env user_id server_id request m =
     (case call_tool_acquire env user_id server_id m of
        Inl early \<Rightarrow> early
      | Inr (server_config, client, m1) \<Rightarrow>
          let outcome = invoke_on_client env server_id server_config client request;
              m2 = m1\<lparr> connection_pool := release_connection server_id client (connection_pool m1) \<rparr>
          in (case outcome of Inl e \<Rightarrow> error_response e server_id | Inr response \<Rightarrow> response, m2))"

section \<open>\<open>batch_call_tools\<close>: the calls as tasks of the event loop\<close>

text \<open>
  \<open>batch_call_tools\<close> hands one \<open>call_tool\<close> coroutine per request to
  \<open>asyncio.gather(*tasks, return_exceptions=True)\<close>. The event loop runs a task until
  it suspends at an \<open>await\<close> that waits for the outside, and resumes it when that wait is
  over; in between it runs the other tasks, on the same manager. \<open>call_tool\<close> waits for
  the outside at four places: the GET of \<open>_get_server_config\<close>, the closing of the
  HTTP client when its \<open>async with\<close> block is left, the client's \<open>__aenter__\<close>, and
  the client's \<open>call_tool\<close>. The pool's lock is never held across such a wait
  (\<open>_create_connection\<close> awaits nothing), so taking it never suspends.

  A task is therefore in one of the states below: not started, suspended at one of the
  four places (with the local variables it needs afterwards), or finished with what
  \<open>gather\<close> records for it: the returned response, an exception of class
  \<open>Exception\<close>, or a \<open>CancelledError\<close>. A \<open>CancelledError\<close> is not an
  \<open>Exception\<close>: it passes the handlers of \<open>_execute_tool\<close> and \<open>call_tool\<close>, runs
  the \<open>finally\<close>, and ends the task; \<open>task_cancelled_at\<close> names the wait, if any, at
  which the task receives one.
\<close>

datatype await_point = AtFetch | AtClose | AtConnect | AtTool

datatype gathered = Returned mcp_response | RaisedException exn | RaisedCancelled

datatype task_state =
    NotStarted
  | AwaitFetch
  | AwaitClose "exn + server_data option"
  | AwaitConnect server_data client
  | AwaitTool server_data client
  | Finished gathered

record task_env =
  task_calls :: call_env
  task_cancelled_at :: "await_point option"

text \<open>
  \<open>call_tool\<close> from the result of \<open>_get_server_config\<close> up to and including
  \<open>get_connection\<close> (the code of \<open>call_tool_acquire\<close> after its first line).
\<close>

definition acquire_after_config ::
  "string \<Rightarrow> string \<Rightarrow> (exn + server_data option) \<Rightarrow> manager \<Rightarrow>
     (mcp_response \<times> manager) + (server_data \<times> client \<times> manager)" where
  "acquire_after_config user_id server_id r m1 =
     (case r of
        Inl e \<Rightarrow> Inl (error_response e server_id, m1)
      | Inr None \<Rightarrow>
          Inl (\<lparr> success = False, result = None,
                 error = Some (''Server '' @ server_id @ '' not found''), metadata = [] \<rparr>, m1)
      | Inr (Some server_config) \<Rightarrow>
          if \<not> sd_truthy server_config then
            Inl (\<lparr> success = False, result = None,
                   error = Some (''Server '' @ server_id @ '' not found''), metadata = [] \<rparr>, m1)
          else
            (case user_has_access user_id server_id m1 of
               Inl e \<Rightarrow> Inl (error_response e server_id, m1)
             | Inr False \<Rightarrow>
                 Inl (\<lparr> success = False, result = None,
                        error = Some (''User '' @ user_id @ '' does not have access to server '' @ server_id),
                        metadata = [] \<rparr>, m1)
             | Inr True \<Rightarrow>
                 (case sd_url server_config of
                    None \<Rightarrow> Inl (error_response (KeyError ''url'') server_id, m1)
                  | Some url \<Rightarrow>
                      (case get_connection server_id url
                              (case sd_config server_config of None \<Rightarrow> [] | Some c \<Rightarrow> c)
                              (connection_pool m1) of
                         (Inl e, p1) \<Rightarrow> Inl (error_response e server_id, m1\<lparr> connection_pool := p1 \<rparr>)
                       | (Inr client, p1) \<Rightarrow> Inr (server_config, client, m1\<lparr> connection_pool := p1 \<rparr>)))))"

text \<open>
  The inner \<open>try\<close> from \<open>_execute_tool\<close> on (the code of \<open>invoke_on_client\<close> after
  the connect step).
\<close>

definition tool_response ::
  "call_env \<Rightarrow> string \<Rightarrow> server_data \<Rightarrow> client \<Rightarrow> mcp_request \<Rightarrow> exn + mcp_response" where
  "tool_response env server_id server_config client request =
     (case execute_tool env client request of
        Inl e \<Rightarrow> Inl e
      | Inr r \<Rightarrow>
          Inr \<lparr> success = True, result = Some r, error = None,
                metadata = [(''server_id'', PStr server_id),
                            (''server_name'', (case sd_name server_config of None \<Rightarrow> PNone | Some n \<Rightarrow> n)),
                            (''execution_time'', PStr (utcnow_isoformat env))] \<rparr>)"

text \<open>
  Where a task goes once the descriptor is known: it finishes (not found, access denied,
  an exception), or it has acquired a client and suspends in \<open>__aenter__\<close> when
  \<open>is_connected()\<close> is false, in the client's \<open>call_tool\<close> otherwise.
\<close>

definition enter_pool ::
  "call_env \<Rightarrow> string \<Rightarrow> string \<Rightarrow> (exn + server_data option) \<Rightarrow> manager \<Rightarrow> task_state \<times> manager" where
  "enter_pool env user_id server_id r m =
     (case acquire_after_config user_id server_id r m of
        Inl (response, m1) \<Rightarrow> (Finished (Returned response), m1)
      | Inr (server_config, client, m1) \<Rightarrow>
          (if is_connected env client then AwaitTool server_config client
           else AwaitConnect server_config client, m1))"

text \<open>
  The end of a task that holds a client: the \<open>finally\<close> releases it; an exception of the
  inner body becomes the error response of the outer handler; a \<open>CancelledError\<close>
  leaves \<open>call_tool\<close> as it is.
\<close>

definition finish_call :: "string \<Rightarrow> client \<Rightarrow> exn + mcp_response \<Rightarrow> manager \<Rightarrow> task_state \<times> manager" where
  "finish_call server_id client outcome m =
     (Finished (Returned (case outcome of Inl e \<Rightarrow> error_response e server_id | Inr response \<Rightarrow> response)),
      m\<lparr> connection_pool := release_connection server_id client (connection_pool m) \<rparr>)"

definition cancel_call :: "string \<Rightarrow> client \<Rightarrow> manager \<Rightarrow> task_state \<times> manager" where
  "cancel_call server_id client m =
     (Finished RaisedCancelled,
      m\<lparr> connection_pool := release_connection server_id client (connection_pool m) \<rparr>)"

text \<open>
  One run of a task by the event loop, from where it stands to its next wait or its end,
  on the manager as it is at that moment. Resuming a finished task does nothing.
\<close>

fun resume ::
  "task_env \<Rightarrow> string \<Rightarrow> string \<Rightarrow> mcp_request \<Rightarrow> task_state \<Rightarrow> manager \<Rightarrow> task_state \<times> manager" where
  "resume tenv user_id server_id request NotStarted m =
     (case map_of (server_cache m) server_id of
        Some cached \<Rightarrow>
          if utcnow_check (task_calls tenv) - last_cache_update m < cache_ttl m
          then enter_pool (task_calls tenv) user_id server_id (Inr (Some cached)) m
          else (AwaitFetch, m)
      | None \<Rightarrow> (AwaitFetch, m))"
| "resume tenv user_id server_id request AwaitFetch m =
     (if task_cancelled_at tenv = Some AtFetch then (Finished RaisedCancelled, m)
      else let (r, m1) = fetch_server_config (task_calls tenv) server_id m in (AwaitClose r, m1))"
| "resume tenv user_id server_id request (AwaitClose r) m =
     (if task_cancelled_at tenv = Some AtClose then (Finished RaisedCancelled, m)
      else enter_pool (task_calls tenv) user_id server_id r m)"
| "resume tenv user_id server_id request (AwaitConnect server_config client) m =
     (if task_cancelled_at tenv = Some AtConnect then cancel_call server_id client m
      else (case aenter (task_calls tenv) client of
              Some e \<Rightarrow> finish_call server_id client (Inl e) m
            | None \<Rightarrow> (AwaitTool server_config client, m)))"
| "resume tenv user_id server_id request (AwaitTool server_config client) m =
     (if task_cancelled_at tenv = Some AtTool then cancel_call server_id client m
      else finish_call server_id client
             (tool_response (task_calls tenv) server_id server_config client request) m)"
| "resume tenv user_id server_id request (Finished g) m = (Finished g, m)"

text \<open>
  The event loop. A schedule is the order in which tasks are run, by their positions in
  the batch; positions outside the batch are skipped. Every order in which the waits of
  the tasks can end is a schedule. After the schedule the loop keeps running the tasks
  in turn until all have finished, which five rounds achieve, a task having at most
  four waits. \<open>gather\<close> then returns the outcomes in the order of the tasks.
\<close>

definition resume_task ::
  "(nat \<Rightarrow> task_env) \<Rightarrow> string \<Rightarrow> (string \<times> mcp_request) list \<Rightarrow> nat \<Rightarrow>
     task_state list \<times> manager \<Rightarrow> task_state list \<times> manager" where
  "resume_task envs user_id requests i tm =
     (if i < length (fst tm) \<and> i < length requests then
        let (t, m1) = resume (envs i) user_id (fst (requests ! i)) (snd (requests ! i)) (fst tm ! i) (snd tm)
        in ((fst tm)[i := t], m1)
      else tm)"

definition event_loop ::
  "(nat \<Rightarrow> task_env) \<Rightarrow> string \<Rightarrow> (string \<times> mcp_request) list \<Rightarrow> nat list \<Rightarrow> manager \<Rightarrow>
     task_state list \<times> manager" where
  "event_loop envs user_id requests schedule m =
     fold (resume_task envs user_id requests)
       (schedule @ concat (replicate 5 [0..<length requests]))
       (replicate (length requests) NotStarted, m)"

fun outcome_of :: "task_state \<Rightarrow> gathered option" where
  "outcome_of (Finished g) = Some g"
| "outcome_of t = None"

definition asyncio_gather ::
  "(nat \<Rightarrow> task_env) \<Rightarrow> string \<Rightarrow> (string \<times> mcp_request) list \<Rightarrow> nat list \<Rightarrow> manager \<Rightarrow>
     gathered list option \<times> manager" where
  "asyncio_gather envs user_id requests schedule m =
     (let (tasks, m1) = event_loop envs user_id requests schedule m
      in (those (map outcome_of tasks), m1))"

text \<open>
  \<open>batch_call_tools\<close>. A request is the pair of \<open>req["server_id"]\<close> and the
  \<open>MCPRequest\<close> built from \<open>req["request"]\<close>. The last loop replaces a gathered
  exception that is an instance of \<open>Exception\<close> by a failure response and appends
  everything else as it is: a response, and also a \<open>CancelledError\<close>. The result is
  \<open>None\<close> if \<open>gather\<close> does not return.
\<close>

fun exception_to_response :: "gathered \<Rightarrow> gathered" where
  "exception_to_response (RaisedException e) =
     Returned \<lparr> success = False, result = None, error = Some (str_exn e), metadata = [] \<rparr>"
| "exception_to_response (Returned response) = Returned response"
| "exception_to_response RaisedCancelled = RaisedCancelled"

definition batch_call_tools ::
  "nat list \<Rightarrow> (nat \<Rightarrow> task_env) \<Rightarrow> string \<Rightarrow> (string \<times> mcp_request) list \<Rightarrow> manager \<Rightarrow>
     gathered list option \<times> manager" where
  "batch_call_tools schedule envs user_id requests m =
     (let (results, m1) = asyncio_gather envs user_id requests schedule m
      in (map_option (map exception_to_response) results, m1))"






section \<open>Example states\<close>

text \<open>
  A pool limited to two connections per server after two acquisitions for the server
  \<open>''w''\<close> (both clients active), and the same pool after the first client has been
  released (client 0 idle, client 1 active).
\<close>

definition pool_two_active :: pool where
  "pool_two_active =
     snd (get_connection ''w'' ''http://w'' []
       (snd (get_connection ''w'' ''http://w'' [] (init_pool 2 30))))"

definition pool_one_idle :: pool where
  "pool_one_idle = release_connection ''w'' 0 pool_two_active"

text \<open>
  A registry at \<open>http://r\<close> that knows the server \<open>''w''\<close>, a user \<open>''u''\<close> whose list
  enables it, a request, and three environments of a call: one in which the client
  connects and the tool returns, one in which connecting raises, one in which the tool
  call raises.
\<close>

definition weather_descriptor :: server_data where
  "weather_descriptor =
     \<lparr> sd_name = Some (PStr ''Weather''), sd_url = Some ''http://w'',
       sd_config = Some [], sd_other = [(''status'', PStr ''active'')] \<rparr>"

definition registry_up :: "http_request \<Rightarrow> server_data http_outcome" where
  "registry_up req =
     (if req_url req = ''http://r/servers/w''
      then HttpReturns 200 (Inr weather_descriptor) (1 / 10)
      else HttpReturns 404
             (Inr \<lparr> sd_name = None, sd_url = None, sd_config = None,
                    sd_other = [(''detail'', PStr ''Server not found'')] \<rparr>) (1 / 10))"

definition manager_u :: manager where
  "manager_u =
     snd (initialize_user_servers
            (\<lambda>req. HttpReturns 200 (Inr [[(''server_id'', PStr ''w''), (''enabled'', PBool True)]]) (1 / 10))
            ''u'' (init_manager ''http://r''))"

definition weather_request :: mcp_request where
  "weather_request =
     \<lparr> tool_name = ''get_current_weather'', parameters = [(''city'', PStr ''Paris'')],
       timeout = Some 30 \<rparr>"

definition env_ok :: call_env where
  "env_ok =
     \<lparr> utcnow_check = 63840000000000000,
       http_get = registry_up,
       utcnow_store = 63840000000100000,
       is_connected = (\<lambda>c. False),
       aenter = (\<lambda>c. None),
       client_call_tool =
         (\<lambda>c name args. Inr \<lparr> attr_content = Some (PStr ''sunny''), attr_text = None,
                                whole_result = PNone \<rparr>),
       utcnow_isoformat = ''2024-01-01T00:00:00'' \<rparr>"

definition env_refused :: call_env where
  "env_refused = env_ok\<lparr> aenter := (\<lambda>c. Some (Exception ''connection refused'')) \<rparr>"

definition env_tool_raises :: call_env where
  "env_tool_raises = env_ok\<lparr> client_call_tool := (\<lambda>c name args. Inl (Exception ''boom'')) \<rparr>"

text \<open>The same manager while one client of \<open>''w''\<close> is checked out.\<close>

definition manager_busy :: manager where
  "manager_busy =
     manager_u\<lparr> connection_pool :=
       snd (get_connection ''w'' ''http://w'' [] (connection_pool manager_u)) \<rparr>"

text \<open>
  The manager after a second user \<open>''d''\<close> has loaded a list in which \<open>''w''\<close> is
  disabled; no list is loaded for the user \<open>''v''\<close>.
\<close>

definition manager_d :: manager where
  "manager_d =
     snd (initialize_user_servers
            (\<lambda>req. HttpReturns 200 (Inr [[(''server_id'', PStr ''w''), (''enabled'', PBool False)]]) (1 / 10))
            ''d'' manager_u)"

text \<open>
  The descriptor cache over time. \<open>manager_cached\<close> has fetched \<open>''w''\<close> (stored at
  \<open>utcnow_store env_ok\<close>). Four minutes later the registry has moved \<open>''w''\<close> and also
  knows \<open>''v''\<close>; \<open>env_v\<close> is a call at that time, \<open>manager_cached_v\<close> the manager
  after it has fetched \<open>''v''\<close>. \<open>env_late\<close> is a call six minutes after the fetch of
  \<open>''w''\<close>, and \<open>env_down\<close> one at the same time with the registry answering 503.
\<close>

definition manager_cached :: manager where
  "manager_cached = snd (get_server_config env_ok ''w'' manager_u)"

definition moved_descriptor :: server_data where
  "moved_descriptor =
     \<lparr> sd_name = Some (PStr ''Weather''), sd_url = Some ''http://w2'',
       sd_config = Some [], sd_other = [(''status'', PStr ''active'')] \<rparr>"

definition other_descriptor :: server_data where
  "other_descriptor =
     \<lparr> sd_name = Some (PStr ''Other''), sd_url = Some ''http://v'',
       sd_config = Some [], sd_other = [] \<rparr>"

definition registry_later :: "http_request \<Rightarrow> server_data http_outcome" where
  "registry_later req =
     (if req_url req = ''http://r/servers/w'' then HttpReturns 200 (Inr moved_descriptor) (1 / 10)
      else if req_url req = ''http://r/servers/v'' then HttpReturns 200 (Inr other_descriptor) (1 / 10)
      else HttpReturns 404
             (Inr \<lparr> sd_name = None, sd_url = None, sd_config = None,
                    sd_other = [(''detail'', PStr ''Server not found'')] \<rparr>) (1 / 10))"

definition env_v :: call_env where
  "env_v = env_ok\<lparr> utcnow_check := 63840000240000000, http_get := registry_later,
                    utcnow_store := 63840000240100000 \<rparr>"

definition manager_cached_v :: manager where
  "manager_cached_v = snd (get_server_config env_v ''v'' manager_cached)"

definition env_late :: call_env where
  "env_late = env_ok\<lparr> utcnow_check := 63840000360100000, http_get := registry_later,
                       utcnow_store := 63840000360200000 \<rparr>"

definition env_down :: call_env where
  "env_down =
     env_late\<lparr> http_get := (\<lambda>req. HttpReturns 503
        (Inr \<lparr> sd_name = None, sd_url = None, sd_config = None,
               sd_other = [(''detail'', PStr ''Service Unavailable'')] \<rparr>) (1 / 10)) \<rparr>"

text \<open>
  Three environments of a health check of \<open>''w''\<close>: its health endpoint, asked with the
  timeout of five seconds, answers 200, answers 204, or cannot be reached.
\<close>

definition health_env_of :: "unit http_outcome \<Rightarrow> health_env" where
  "health_env_of outcome =
     \<lparr> health_http_get =
         (\<lambda>req. if req_url req = ''http://w/health'' \<and> req_timeout req = Some 5
                then outcome
                else HttpRaises (Exception ''unexpected request'')),
       health_utcnow = 63840000000000000 \<rparr>"

text \<open>
  A batch of three requests to \<open>''w''\<close> by the user \<open>''u''\<close>. In \<open>tasks_all_ok\<close> every
  client connects and every tool call returns; in \<open>tasks_first_refused\<close> the first
  call's connect step raises, in \<open>tasks_second_refused\<close> the second call's; nothing
  else differs and no task is cancelled. In \<open>tasks_second_cancelled\<close> the second task
  receives a \<open>CancelledError\<close> while it waits for its tool call. \<open>manager_two\<close> is
  the manager with a pool built with \<open>max_connections_per_server=2\<close>. In \<open>schedule_overlap\<close> the three tasks start,
  the first two fetch the descriptor and acquire a client, the first task's connect step
  ends, and only then does the third task's fetch end.
\<close>

definition three_requests :: "(string \<times> mcp_request) list" where
  "three_requests = [(''w'', weather_request), (''w'', weather_request), (''w'', weather_request)]"




definition tasks_second_cancelled :: "nat \<Rightarrow> task_env" where
  "tasks_second_cancelled i =
     \<lparr> task_calls = env_ok, task_cancelled_at = (if i = 1 then Some AtTool else None) \<rparr>"



definition weather_success :: mcp_response where
  "weather_success =
     \<lparr> success = True, result = Some (PStr ''sunny''), error = None,
       metadata = [(''server_id'', PStr ''w''), (''server_name'', PStr ''Weather''),
                   (''execution_time'', PStr ''2024-01-01T00:00:00'')] \<rparr>"

section \<open>The pool's operations, as seen through the idle list and the active set\<close>

lemmas pool_unfold =
  dd_getitem_def create_connection_def idle_of_def active_of_def dict_get_def Let_def update_conv'

lemma fst_get_connection:
  "fst (get_connection sid url cfg p) =
     (if idle_of p sid \<noteq> [] then Inr (last (idle_of p sid))
      else if int (card (active_of p sid)) < max_connections_per_server p then Inr (length (clients p))
      else Inl (Exception (''Connection pool exhausted for server '' @ sid)))"
  by (simp add: get_connection_def pool_unfold split: option.splits prod.splits)

lemma idle_of_get_connection:
  "idle_of (snd (get_connection sid url cfg p)) sid' =
     (if sid' = sid then butlast (idle_of p sid) else idle_of p sid')"
  by (simp add: get_connection_def pool_unfold split: option.splits prod.splits)

lemma active_of_get_connection:
  "active_of (snd (get_connection sid url cfg p)) sid' =
     (if sid' = sid then
        (if idle_of p sid \<noteq> [] then insert (last (idle_of p sid)) (active_of p sid)
         else if int (card (active_of p sid)) < max_connections_per_server p
           then insert (length (clients p)) (active_of p sid)
         else active_of p sid)
      else active_of p sid')"
  by (simp add: get_connection_def pool_unfold split: option.splits prod.splits)

lemma length_clients_get_connection:
  "length (clients (snd (get_connection sid url cfg p))) =
     (if idle_of p sid = [] \<and> int (card (active_of p sid)) < max_connections_per_server p
      then Suc (length (clients p)) else length (clients p))"
  by (simp add: get_connection_def pool_unfold split: option.splits prod.splits)

lemma max_get_connection:
  "max_connections_per_server (snd (get_connection sid url cfg p)) = max_connections_per_server p"
  by (simp add: get_connection_def pool_unfold split: option.splits prod.splits)

lemma server_configs_get_connection:
  "map_of (server_configs (snd (get_connection sid url cfg p))) sid =
     Some \<lparr> cfg_url = url, cfg_config = cfg \<rparr>"
  by (simp add: get_connection_def pool_unfold split: option.splits prod.splits)

lemma idle_of_release:
  "idle_of (release_connection sid c p) sid' =
     (if sid' = sid \<and> c \<in> active_of p sid then idle_of p sid @ [c] else idle_of p sid')"
  by (simp add: release_connection_def pool_unfold split: option.splits prod.splits)

lemma active_of_release:
  "active_of (release_connection sid c p) sid' =
     (if sid' = sid then active_of p sid - {c} else active_of p sid')"
  by (auto simp add: release_connection_def pool_unfold split: option.splits prod.splits)

lemma clients_release: "clients (release_connection sid c p) = clients p"
  by (simp add: release_connection_def pool_unfold split: option.splits prod.splits)

lemma max_release:
  "max_connections_per_server (release_connection sid c p) = max_connections_per_server p"
  by (simp add: release_connection_def pool_unfold split: option.splits prod.splits)

lemma idle_of_close_server:
  "idle_of (close_server sid p) sid' = (if sid' = sid then [] else idle_of p sid')"
  by (simp add: close_server_def idle_of_def dict_get_def update_conv')

lemma active_of_close_server:
  "active_of (close_server sid p) sid' = (if sid' = sid then {} else active_of p sid')"
  by (simp add: close_server_def active_of_def dict_get_def update_conv')

lemma fold_close_server:
  "idle_of (fold close_server ks p) sid = (if sid \<in> set ks then [] else idle_of p sid) \<and>
   active_of (fold close_server ks p) sid = (if sid \<in> set ks then {} else active_of p sid) \<and>
   clients (fold close_server ks p) = clients p \<and>
   max_connections_per_server (fold close_server ks p) = max_connections_per_server p"
proof (induction ks arbitrary: p)
  case Nil
  show ?case by simp
next
  case (Cons k ks)
  have "clients (close_server k p) = clients p"
    and "max_connections_per_server (close_server k p) = max_connections_per_server p"
    by (simp_all add: close_server_def)
  with Cons[of "close_server k p"] show ?case
    by (simp add: idle_of_close_server active_of_close_server)
qed

lemma close_all_views:
  "\<exists>ks. idle_of (close_all_connections osid p) sid = (if sid \<in> ks then [] else idle_of p sid) \<and>
        active_of (close_all_connections osid p) sid = (if sid \<in> ks then {} else active_of p sid) \<and>
        clients (close_all_connections osid p) = clients p \<and>
        max_connections_per_server (close_all_connections osid p) = max_connections_per_server p"
  unfolding close_all_connections_def Let_def
  using fold_close_server by blast

lemma health_check_views:
  "idle_of (snd (health_check env sid' p)) sid = idle_of p sid \<and>
   active_of (snd (health_check env sid' p)) sid = active_of p sid \<and>
   clients (snd (health_check env sid' p)) = clients p \<and>
   max_connections_per_server (snd (health_check env sid' p)) = max_connections_per_server p"
  by (simp add: health_check_def idle_of_def active_of_def Let_def
      split: option.splits http_outcome.splits)

section \<open>Invariants of the pool\<close>

lemma pool_inv_get_connection:
  assumes "pool_inv p sid"
  shows "pool_inv (snd (get_connection sid' url cfg p)) sid"
proof (cases "sid = sid'")
  case False
  with assms show ?thesis
    by (simp add: pool_inv_def idle_of_get_connection active_of_get_connection)
next
  case True
  show ?thesis
  proof (cases "idle_of p sid = []")
    case True
    with \<open>sid = sid'\<close> show ?thesis
      by (simp add: pool_inv_def idle_of_get_connection active_of_get_connection)
  next
    case False
    then have split: "idle_of p sid = butlast (idle_of p sid) @ [last (idle_of p sid)]"
      by simp
    from assms have "distinct (butlast (idle_of p sid) @ [last (idle_of p sid)])"
      and "set (butlast (idle_of p sid) @ [last (idle_of p sid)]) \<inter> active_of p sid = {}"
      unfolding pool_inv_def using split by simp_all
    then have "distinct (butlast (idle_of p sid))"
      and "last (idle_of p sid) \<notin> set (butlast (idle_of p sid))"
      and "set (butlast (idle_of p sid)) \<inter> active_of p sid = {}"
      by auto
    with False \<open>sid = sid'\<close> show ?thesis
      by (simp add: pool_inv_def idle_of_get_connection active_of_get_connection)
  qed
qed

lemma pool_inv_release:
  assumes "pool_inv p sid"
  shows "pool_inv (release_connection sid' c p) sid"
  using assms by (auto simp add: pool_inv_def idle_of_release active_of_release)

lemma pool_inv_close_all:
  assumes "pool_inv p sid"
  shows "pool_inv (close_all_connections osid p) sid"
proof -
  obtain ks where
    "idle_of (close_all_connections osid p) sid = (if sid \<in> ks then [] else idle_of p sid)"
    "active_of (close_all_connections osid p) sid = (if sid \<in> ks then {} else active_of p sid)"
    using close_all_views[of osid p sid] by blast
  with assms show ?thesis
    by (simp add: pool_inv_def)
qed

lemma pool_ok_init: "pool_ok (init_pool n t)"
  by (simp add: pool_ok_def pool_inv_def init_pool_def idle_of_def active_of_def dict_get_def)

lemma pool_ok_get_connection:
  assumes "pool_ok p"
  shows "pool_ok (snd (get_connection sid' url cfg p))"
  unfolding pool_ok_def
proof (intro allI conjI)
  fix sid
  let ?q = "snd (get_connection sid' url cfg p)"
  from assms have fin: "finite (active_of p sid)" and inv: "pool_inv p sid"
    and cnt: "int (length (idle_of p sid) + card (active_of p sid)) \<le> max 0 (max_connections_per_server p)"
    and ids: "\<forall>c \<in> set (idle_of p sid) \<union> active_of p sid. c < length (clients p)"
    by (simp_all add: pool_ok_def)
  show "finite (active_of ?q sid)"
    using fin by (auto simp add: active_of_get_connection)
  show "pool_inv ?q sid"
    using inv by (rule pool_inv_get_connection)
  show "int (length (idle_of ?q sid) + card (active_of ?q sid)) \<le> max 0 (max_connections_per_server ?q)"
  proof (cases "sid = sid'")
    case False
    with cnt show ?thesis
      by (simp add: idle_of_get_connection active_of_get_connection max_get_connection)
  next
    case True
    show ?thesis
    proof (cases "idle_of p sid = []")
      case True
      with cnt fin \<open>sid = sid'\<close> show ?thesis
        by (simp add: idle_of_get_connection active_of_get_connection max_get_connection card_insert_if)
    next
      case False
      then have pos: "0 < length (idle_of p sid)"
        by simp
      have pop: "length (butlast (idle_of p sid)) = length (idle_of p sid) - 1"
        by simp
      have add: "card (insert (last (idle_of p sid)) (active_of p sid)) \<le> Suc (card (active_of p sid))"
        using fin by (simp add: card_insert_if)
      from pos pop add have "length (butlast (idle_of p sid)) +
            card (insert (last (idle_of p sid)) (active_of p sid))
          \<le> length (idle_of p sid) + card (active_of p sid)"
        by linarith
      moreover have "idle_of ?q sid = butlast (idle_of p sid)"
        and "active_of ?q sid = insert (last (idle_of p sid)) (active_of p sid)"
        using False \<open>sid = sid'\<close> by (simp_all add: idle_of_get_connection active_of_get_connection)
      ultimately have "int (length (idle_of ?q sid) + card (active_of ?q sid))
          \<le> int (length (idle_of p sid) + card (active_of p sid))"
        by simp
      with cnt show ?thesis
        unfolding max_get_connection by linarith
    qed
  qed
  show "\<forall>c \<in> set (idle_of ?q sid) \<union> active_of ?q sid. c < length (clients ?q)"
  proof
    fix c
    assume c: "c \<in> set (idle_of ?q sid) \<union> active_of ?q sid"
    have le: "length (clients p) \<le> length (clients ?q)"
      by (simp add: length_clients_get_connection)
    have "c \<in> set (idle_of p sid) \<union> active_of p sid \<or>
          (c = length (clients p) \<and> length (clients ?q) = Suc (length (clients p)))"
      using c
      by (auto simp add: idle_of_get_connection active_of_get_connection length_clients_get_connection
          split: if_splits dest: in_set_butlastD)
    then show "c < length (clients ?q)"
    proof
      assume "c \<in> set (idle_of p sid) \<union> active_of p sid"
      with ids have "c < length (clients p)"
        by blast
      with le show ?thesis
        by linarith
    next
      assume "c = length (clients p) \<and> length (clients ?q) = Suc (length (clients p))"
      then show ?thesis
        by simp
    qed
  qed
qed

lemma pool_ok_release:
  assumes "pool_ok p"
  shows "pool_ok (release_connection sid' c p)"
  unfolding pool_ok_def
proof (intro allI conjI)
  fix sid
  let ?q = "release_connection sid' c p"
  from assms have fin: "finite (active_of p sid)" and inv: "pool_inv p sid"
    and cnt: "int (length (idle_of p sid) + card (active_of p sid)) \<le> max 0 (max_connections_per_server p)"
    and ids: "\<forall>c \<in> set (idle_of p sid) \<union> active_of p sid. c < length (clients p)"
    by (simp_all add: pool_ok_def)
  show "finite (active_of ?q sid)"
    using fin by (auto simp add: active_of_release)
  show "pool_inv ?q sid"
    using inv by (rule pool_inv_release)
  show "int (length (idle_of ?q sid) + card (active_of ?q sid)) \<le> max 0 (max_connections_per_server ?q)"
  proof (cases "sid = sid' \<and> c \<in> active_of p sid")
    case True
    then have "card (active_of p sid - {c}) = card (active_of p sid) - 1" and "0 < card (active_of p sid)"
      using fin by (auto simp add: card_gt_0_iff)
    then have "length (idle_of p sid @ [c]) + card (active_of p sid - {c})
        = length (idle_of p sid) + card (active_of p sid)"
      by simp
    moreover have "idle_of ?q sid = idle_of p sid @ [c]" and "active_of ?q sid = active_of p sid - {c}"
      using True by (auto simp add: idle_of_release active_of_release)
    ultimately have "int (length (idle_of ?q sid) + card (active_of ?q sid))
        = int (length (idle_of p sid) + card (active_of p sid))"
      by simp
    with cnt show ?thesis
      unfolding max_release by linarith
  next
    case False
    then have "active_of ?q sid = active_of p sid" and "idle_of ?q sid = idle_of p sid"
      by (auto simp add: idle_of_release active_of_release)
    with cnt show ?thesis
      by (simp add: max_release)
  qed
  show "\<forall>c \<in> set (idle_of ?q sid) \<union> active_of ?q sid. c < length (clients ?q)"
    using ids by (auto simp add: idle_of_release active_of_release clients_release split: if_splits)
qed

lemma pool_ok_close_all:
  assumes "pool_ok p"
  shows "pool_ok (close_all_connections osid p)"
  unfolding pool_ok_def
proof (intro allI)
  fix sid
  let ?q = "close_all_connections osid p"
  obtain ks where v:
    "idle_of ?q sid = (if sid \<in> ks then [] else idle_of p sid)"
    "active_of ?q sid = (if sid \<in> ks then {} else active_of p sid)"
    "clients ?q = clients p"
    "max_connections_per_server ?q = max_connections_per_server p"
    using close_all_views[of osid p sid] by blast
  from assms have "finite (active_of p sid)" "pool_inv p sid"
    "int (length (idle_of p sid) + card (active_of p sid)) \<le> max 0 (max_connections_per_server p)"
    "\<forall>c \<in> set (idle_of p sid) \<union> active_of p sid. c < length (clients p)"
    by (simp_all add: pool_ok_def)
  then show "finite (active_of ?q sid) \<and> pool_inv ?q sid \<and>
        int (length (idle_of ?q sid) + card (active_of ?q sid)) \<le> max 0 (max_connections_per_server ?q) \<and>
        (\<forall>c \<in> set (idle_of ?q sid) \<union> active_of ?q sid. c < length (clients ?q))"
    using v by (simp add: pool_inv_def)
qed

lemma pool_ok_health_check:
  assumes "pool_ok p"
  shows "pool_ok (snd (health_check env sid' p))"
  using assms by (simp add: pool_ok_def pool_inv_def health_check_views)

lemma pool_reachable_ok: "pool_reachable p \<Longrightarrow> pool_ok p"
  by (induction rule: pool_reachable.induct)
     (simp_all add: pool_ok_init pool_ok_get_connection pool_ok_release pool_ok_close_all
        pool_ok_health_check)

lemma init_pool_views:
  "idle_of (init_pool n t) sid = []"
  "active_of (init_pool n t) sid = {}"
  "clients (init_pool n t) = []"
  "max_connections_per_server (init_pool n t) = n"
  by (simp_all add: init_pool_def idle_of_def active_of_def dict_get_def)

lemmas pool_views =
  init_pool_views fst_get_connection idle_of_get_connection active_of_get_connection
  length_clients_get_connection max_get_connection idle_of_release active_of_release
  clients_release max_release

lemma pool_two_active_views:
  "idle_of pool_two_active ''w'' = []"
  "active_of pool_two_active ''w'' = {0, 1}"
  "max_connections_per_server pool_two_active = 2"
  "length (clients pool_two_active) = 2"
  by (auto simp add: pool_two_active_def pool_views)

lemma pool_two_active_reachable: "pool_reachable pool_two_active"
  unfolding pool_two_active_def by (intro reach_get reach_init)

lemma pool_one_idle_views:
  "idle_of pool_one_idle ''w'' = [0]"
  "active_of pool_one_idle ''w'' = {1}"
  "max_connections_per_server pool_one_idle = 2"
  "length (clients pool_one_idle) = 2"
  by (auto simp add: pool_one_idle_def pool_views pool_two_active_views)

lemma pool_one_idle_reachable: "pool_reachable pool_one_idle"
  unfolding pool_one_idle_def by (intro reach_release pool_two_active_reachable)

section \<open>The claims about the pool\<close>

text \<open>
  C10. For every provider the idle list has no duplicate and shares no client with the
  active set: this holds of a new pool and of every reachable one, and each pool
  operation preserves it, for the provider it is called for and for every other one:
  \<open>get_connection\<close> (whether it returns or raises), \<open>release_connection\<close> and
  \<open>close_all_connections\<close>. Releasing a client that is not in the provider's active set
  leaves every idle list and every active set as it was.
\<close>

theorem pool_inv_preserved:
  assumes "pool_inv p sid"
  shows "pool_inv (init_pool max_conn tmo) sid \<and>
    (pool_reachable q \<longrightarrow> pool_inv q sid) \<and>
    pool_inv (snd (get_connection sid' url cfg p)) sid \<and>
    pool_inv (release_connection sid' c p) sid \<and>
    pool_inv (close_all_connections osid p) sid \<and>
    (c \<notin> active_of p sid' \<longrightarrow>
       idle_of (release_connection sid' c p) sid = idle_of p sid \<and>
       active_of (release_connection sid' c p) sid = active_of p sid)"
proof (intro conjI impI)
  show "pool_inv (init_pool max_conn tmo) sid"
    by (simp add: pool_inv_def init_pool_views)
  show "pool_inv q sid" if "pool_reachable q"
    using pool_reachable_ok[OF that] by (simp add: pool_ok_def)
  show "pool_inv (snd (get_connection sid' url cfg p)) sid"
    using assms by (rule pool_inv_get_connection)
  show "pool_inv (release_connection sid' c p) sid"
    using assms by (rule pool_inv_release)
  show "pool_inv (close_all_connections osid p) sid"
    using assms by (rule pool_inv_close_all)
  show "idle_of (release_connection sid' c p) sid = idle_of p sid" if "c \<notin> active_of p sid'"
    using that by (simp add: idle_of_release)
  show "active_of (release_connection sid' c p) sid = active_of p sid" if "c \<notin> active_of p sid'"
    using that by (simp add: active_of_release)
qed

theorem pool_inv_preserved_witness:
  "pool_inv pool_one_idle ''w'' \<and>
   idle_of pool_one_idle ''w'' = [0] \<and> active_of pool_one_idle ''w'' = {1} \<and>
   pool_inv (snd (get_connection ''w'' ''http://w'' [] pool_one_idle)) ''w'' \<and>
   pool_inv (release_connection ''w'' 1 pool_one_idle) ''w'' \<and>
   pool_inv (close_all_connections None pool_one_idle) ''w'' \<and>
   idle_of (release_connection ''w'' 7 pool_one_idle) ''w'' = [0] \<and>
   active_of (release_connection ''w'' 7 pool_one_idle) ''w'' = {1}"
proof -
  have inv: "pool_inv pool_one_idle ''w''"
    by (simp add: pool_inv_def pool_one_idle_views)
  have "7 \<notin> active_of pool_one_idle ''w''"
    by (simp add: pool_one_idle_views)
  with pool_inv_preserved[OF inv, of 2 30 pool_one_idle "''w''" "''http://w''" "[]" 7 None]
    pool_inv_preserved[OF inv, of 2 30 pool_one_idle "''w''" "''http://w''" "[]" 1 None]
  show ?thesis
    using inv by (simp add: pool_one_idle_views)
qed

text \<open>
  C1. In a reachable pool whose limit \<open>N = max_connections_per_server\<close> is not negative,
  \<open>get_connection\<close> for a provider returns the last idle client when the idle list is
  not empty; otherwise, when fewer than \<open>N\<close> clients are active, it constructs a client
  that is in no idle list and no active set yet and makes it active; otherwise it raises
  at once the exception whose text is "Connection pool exhausted for server ..." and
  leaves idle list and active set as they were (nothing is queued). The active set of a
  provider never holds more than \<open>N\<close> clients, and when it holds \<open>N\<close> the next
  acquisition raises.
\<close>

theorem get_connection_bounded:
  assumes "pool_reachable p" and "0 \<le> max_connections_per_server p"
  shows
    "(idle_of p sid \<noteq> [] \<longrightarrow>
        fst (get_connection sid url cfg p) = Inr (last (idle_of p sid)) \<and>
        idle_of (snd (get_connection sid url cfg p)) sid = butlast (idle_of p sid) \<and>
        active_of (snd (get_connection sid url cfg p)) sid = insert (last (idle_of p sid)) (active_of p sid) \<and>
        length (clients (snd (get_connection sid url cfg p))) = length (clients p)) \<and>
     (idle_of p sid = [] \<and> int (card (active_of p sid)) < max_connections_per_server p \<longrightarrow>
        fst (get_connection sid url cfg p) = Inr (length (clients p)) \<and>
        length (clients p) \<notin> set (idle_of p sid') \<union> active_of p sid' \<and>
        length (clients (snd (get_connection sid url cfg p))) = Suc (length (clients p)) \<and>
        idle_of (snd (get_connection sid url cfg p)) sid = [] \<and>
        active_of (snd (get_connection sid url cfg p)) sid = insert (length (clients p)) (active_of p sid)) \<and>
     (idle_of p sid = [] \<and> \<not> int (card (active_of p sid)) < max_connections_per_server p \<longrightarrow>
        fst (get_connection sid url cfg p) =
          Inl (Exception (''Connection pool exhausted for server '' @ sid)) \<and>
        idle_of (snd (get_connection sid url cfg p)) sid = idle_of p sid \<and>
        active_of (snd (get_connection sid url cfg p)) sid = active_of p sid \<and>
        length (clients (snd (get_connection sid url cfg p))) = length (clients p)) \<and>
     int (card (active_of p sid)) \<le> max_connections_per_server p \<and>
     (int (card (active_of p sid)) = max_connections_per_server p \<longrightarrow>
        fst (get_connection sid url cfg p) =
          Inl (Exception (''Connection pool exhausted for server '' @ sid)))"
proof -
  have ok: "pool_ok p"
    using assms(1) by (rule pool_reachable_ok)
  then have cnt: "int (length (idle_of p sid) + card (active_of p sid)) \<le> max_connections_per_server p"
    using assms(2) by (simp add: pool_ok_def)
  have fresh: "length (clients p) \<notin> set (idle_of p sid') \<union> active_of p sid'"
  proof
    assume "length (clients p) \<in> set (idle_of p sid') \<union> active_of p sid'"
    with ok have "length (clients p) < length (clients p)"
      unfolding pool_ok_def by blast
    then show False
      by simp
  qed
  have bound: "int (card (active_of p sid)) \<le> max_connections_per_server p"
    using cnt by linarith
  have full: "idle_of p sid = []" if "int (card (active_of p sid)) = max_connections_per_server p"
  proof -
    from cnt that have "length (idle_of p sid) = 0"
      by linarith
    then show ?thesis
      by simp
  qed
  have reuse: "length (clients (snd (get_connection sid url cfg p))) = length (clients p)"
    if "idle_of p sid \<noteq> []"
    using that by (simp add: length_clients_get_connection)
  show ?thesis
    using fresh bound full reuse
    by (simp add: fst_get_connection idle_of_get_connection active_of_get_connection
        length_clients_get_connection)
qed

theorem get_connection_bounded_witness:
  "max_connections_per_server default_pool = 5 \<and>
   pool_reachable pool_two_active \<and>
   max_connections_per_server pool_two_active = 2 \<and>
   card (active_of pool_two_active ''w'') = 2 \<and>
   fst (get_connection ''w'' ''http://w'' [] pool_two_active) =
     Inl (Exception ''Connection pool exhausted for server w'') \<and>
   fst (get_connection ''w'' ''http://w'' [] pool_one_idle) = Inr 0 \<and>
   active_of (snd (get_connection ''w'' ''http://w'' [] pool_one_idle)) ''w'' = {0, 1} \<and>
   fst (get_connection ''v'' ''http://v'' [] pool_one_idle) = Inr 2"
proof -
  have pos: "0 \<le> max_connections_per_server pool_two_active"
    "0 \<le> max_connections_per_server pool_one_idle"
    by (simp_all add: pool_two_active_views pool_one_idle_views)
  have other: "idle_of pool_one_idle ''v'' = []" "active_of pool_one_idle ''v'' = {}"
    by (simp_all add: pool_one_idle_def pool_two_active_def pool_views)
  show ?thesis
    using get_connection_bounded[OF pool_two_active_reachable pos(1), of "''w''" "''http://w''" "[]" "''w''"]
      get_connection_bounded[OF pool_one_idle_reachable pos(2), of "''w''" "''http://w''" "[]" "''w''"]
      get_connection_bounded[OF pool_one_idle_reachable pos(2), of "''v''" "''http://v''" "[]" "''v''"]
      other
    by (auto simp add: pool_two_active_views pool_one_idle_views pool_two_active_reachable
        default_pool_def init_pool_views)
qed

section \<open>The descriptor cache and the access check\<close>

lemma fetch_server_config_frame:
  "connection_pool (snd (fetch_server_config env sid m)) = connection_pool m \<and>
   user_servers (snd (fetch_server_config env sid m)) = user_servers m \<and>
   registry_url (snd (fetch_server_config env sid m)) = registry_url m \<and>
   cache_ttl (snd (fetch_server_config env sid m)) = cache_ttl m"
  by (simp add: fetch_server_config_def split: http_outcome.splits sum.splits)

lemma get_server_config_frame:
  "connection_pool (snd (get_server_config env sid m)) = connection_pool m \<and>
   user_servers (snd (get_server_config env sid m)) = user_servers m \<and>
   registry_url (snd (get_server_config env sid m)) = registry_url m \<and>
   cache_ttl (snd (get_server_config env sid m)) = cache_ttl m"
  by (simp add: get_server_config_def fetch_server_config_frame split: option.splits)

lemma any_enabled_none:
  assumes "\<forall>s \<in> set servers. map_of s ''server_id'' \<noteq> None \<and>
             \<not> (map_of s ''server_id'' = Some (PStr sid) \<and> truthy (dict_get s ''enabled'' (PBool False)))"
  shows "any_enabled sid servers = Inr False"
  using assms
proof (induction servers)
  case Nil
  show ?case by simp
next
  case (Cons s servers)
  from Cons.prems obtain v where v: "map_of s ''server_id'' = Some v"
    by auto
  with Cons.prems have "\<not> (v = PStr sid \<and> truthy (dict_get s ''enabled'' (PBool False)))"
    by simp
  moreover from Cons have "any_enabled sid servers = Inr False"
    by simp
  ultimately show ?case
    using v by (simp add: dict_getitem_def)
qed

lemma user_has_access_get_server_config:
  "user_has_access uid sid' (snd (get_server_config env sid m)) = user_has_access uid sid' m"
  by (simp add: user_has_access_def get_server_config_frame)

section \<open>\<open>call_tool\<close> in its two halves\<close>

lemma call_tool_early:
  assumes "call_tool_acquire env uid sid m = Inl early"
  shows "call_tool env uid sid req m = early"
  using assms by (simp add: call_tool_def)

lemma call_tool_acquired:
  assumes "call_tool_acquire env uid sid m = Inr (cfg, c, m1)"
  shows "call_tool env uid sid req m =
     ((case invoke_on_client env sid cfg c req of Inl e \<Rightarrow> error_response e sid | Inr r \<Rightarrow> r),
      m1\<lparr> connection_pool := release_connection sid c (connection_pool m1) \<rparr>)"
  using assms by (simp add: call_tool_def Let_def)

lemma call_tool_acquire_InrD:
  assumes "call_tool_acquire env uid sid m = Inr (cfg, c, m1)"
  shows "\<exists>url. sd_url cfg = Some url \<and>
           fst (get_server_config env sid m) = Inr (Some cfg) \<and> sd_truthy cfg \<and>
           user_has_access uid sid m = Inr True \<and>
           get_connection sid url (case sd_config cfg of None \<Rightarrow> [] | Some k \<Rightarrow> k) (connection_pool m)
             = (Inr c, connection_pool m1)"
proof -
  obtain r m0 where g: "get_server_config env sid m = (r, m0)"
    by (cases "get_server_config env sid m")
  have frame: "connection_pool m0 = connection_pool m" "user_has_access uid sid m0 = user_has_access uid sid m"
    using get_server_config_frame[of env sid m] user_has_access_get_server_config[of uid sid env sid m] g
    by simp_all
  from assms g show ?thesis
    unfolding call_tool_acquire_def frame[symmetric]
    by (auto split: sum.splits option.splits if_splits bool.splits prod.splits)
qed

text \<open>What an acquisition does to a reachable pool, and what the release after it does.\<close>

lemma acquire_release_views:
  assumes ok: "pool_ok p" and got: "get_connection sid url k p = (Inr c, p1)"
  shows "c \<notin> active_of p sid" and "c \<in> active_of p1 sid"
    and "active_of (release_connection sid c p1) sid' = active_of p sid'"
    and "idle_of (release_connection sid c p1) sid = butlast (idle_of p sid) @ [c]"
    and "c \<notin> set (butlast (idle_of p sid))"
proof -
  from got have f: "fst (get_connection sid url k p) = Inr c" and p1: "p1 = snd (get_connection sid url k p)"
    by simp_all
  from ok have inv: "pool_inv p sid"
    and ids: "\<forall>x \<in> set (idle_of p sid) \<union> active_of p sid. x < length (clients p)"
    by (simp_all add: pool_ok_def)
  have act1: "active_of p1 sid = insert c (active_of p sid)"
    using f unfolding p1 by (auto simp add: fst_get_connection active_of_get_connection split: if_splits)
  have idle1: "idle_of p1 sid = butlast (idle_of p sid)"
    unfolding p1 by (simp add: idle_of_get_connection)
  show notin: "c \<notin> active_of p sid"
  proof (cases "idle_of p sid = []")
    case True
    with f have "c = length (clients p)"
      by (simp add: fst_get_connection split: if_splits)
    with ids show ?thesis
      by auto
  next
    case False
    with f have "c = last (idle_of p sid)"
      by (simp add: fst_get_connection)
    with False have "c \<in> set (idle_of p sid)"
      by simp
    with inv show ?thesis
      by (auto simp add: pool_inv_def)
  qed
  show "c \<in> active_of p1 sid"
    by (simp add: act1)
  show "active_of (release_connection sid c p1) sid' = active_of p sid'"
  proof (cases "sid' = sid")
    case True
    with notin show ?thesis
      by (simp add: active_of_release act1)
  next
    case False
    then show ?thesis
      unfolding p1 by (simp add: active_of_release active_of_get_connection)
  qed
  show "idle_of (release_connection sid c p1) sid = butlast (idle_of p sid) @ [c]"
    by (simp add: idle_of_release act1 idle1)
  show "c \<notin> set (butlast (idle_of p sid))"
  proof (cases "idle_of p sid = []")
    case True
    then show ?thesis
      by simp
  next
    case False
    with f have c: "c = last (idle_of p sid)"
      by (simp add: fst_get_connection)
    from False have "idle_of p sid = butlast (idle_of p sid) @ [last (idle_of p sid)]"
      by simp
    with inv have "distinct (butlast (idle_of p sid) @ [last (idle_of p sid)])"
      by (simp add: pool_inv_def)
    with c show ?thesis
      by simp
  qed
qed

section \<open>Evaluating the example states\<close>

lemma manager_u_fields:
  "registry_url manager_u = ''http://r''"
  "connection_pool manager_u = default_pool"
  "server_cache manager_u = []"
  "cache_ttl manager_u = 300000000"
  "last_cache_update manager_u = 0"
  "user_servers manager_u = [(''u'', [[(''server_id'', PStr ''w''), (''enabled'', PBool True)]])]"
  by (simp_all add: manager_u_def initialize_user_servers_def init_manager_def
      timedelta_minutes_def datetime_min_def)

lemma manager_busy_fields:
  "registry_url manager_busy = ''http://r''"
  "connection_pool manager_busy = snd (get_connection ''w'' ''http://w'' [] default_pool)"
  "server_cache manager_busy = []"
  "cache_ttl manager_busy = 300000000"
  "last_cache_update manager_busy = 0"
  "user_servers manager_busy = [(''u'', [[(''server_id'', PStr ''w''), (''enabled'', PBool True)]])]"
  by (simp_all add: manager_busy_def manager_u_fields)

lemma default_pool_reachable: "pool_reachable default_pool"
  unfolding default_pool_def by (rule reach_init)

lemma manager_busy_reachable: "pool_reachable (connection_pool manager_busy)"
  unfolding manager_busy_fields by (intro reach_get default_pool_reachable)

lemmas call_eval =
  call_tool_acquire_def get_server_config_def fetch_server_config_def registry_up_def
  sd_truthy_def weather_descriptor_def user_has_access_def dict_get_def dict_getitem_def
  default_pool_def split_beta pool_views

lemma manager_busy_views:
  "idle_of (connection_pool manager_busy) ''w'' = []"
  "active_of (connection_pool manager_busy) ''w'' = {0}"
  by (simp_all add: manager_busy_fields default_pool_def pool_views)

lemma acquire_busy:
  assumes "http_get env = registry_up"
  shows "\<exists>m1. call_tool_acquire env ''u'' ''w'' manager_busy = Inr (weather_descriptor, 1, m1)"
  by (simp add: assms manager_busy_fields call_eval)

lemma acquire_u:
  assumes "http_get env = registry_up"
  shows "\<exists>m1. call_tool_acquire env ''u'' ''w'' manager_u = Inr (weather_descriptor, 0, m1)"
  by (simp add: assms manager_u_fields call_eval)

lemma env_http_get:
  "http_get env_ok = registry_up" "http_get env_refused = registry_up"
  "http_get env_tool_raises = registry_up"
  by (simp_all add: env_ok_def env_refused_def env_tool_raises_def)

lemma invoke_examples:
  "invoke_on_client env_ok ''w'' weather_descriptor c weather_request =
     Inr \<lparr> success = True, result = Some (PStr ''sunny''), error = None,
           metadata = [(''server_id'', PStr ''w''), (''server_name'', PStr ''Weather''),
                       (''execution_time'', PStr ''2024-01-01T00:00:00'')] \<rparr>"
  "invoke_on_client env_refused ''w'' weather_descriptor c weather_request =
     Inl (Exception ''connection refused'')"
  "invoke_on_client env_tool_raises ''w'' weather_descriptor c weather_request =
     Inl (Exception ''Tool execution failed: boom'')"
  by (simp_all add: invoke_on_client_def execute_tool_def env_ok_def env_refused_def
      env_tool_raises_def weather_descriptor_def)

section \<open>The claims about \<open>call_tool\<close>\<close>

text \<open>
  C2. When \<open>call_tool\<close> has acquired a client from a reachable pool, the pool it leaves
  behind is the pool after the acquisition with that client released once, whatever the
  invocation did (the response is the success response of the inner body or the error
  response of its exception): the client was not active before the call, is active
  during the invocation and is not active after it, every active set is what it was
  before the call, so the active count is too, and the client stands once in its
  provider's idle list, at the end.
\<close>

theorem call_tool_releases:
  assumes "pool_reachable (connection_pool m)"
    and "call_tool_acquire env uid sid m = Inr (cfg, c, m1)"
  shows "connection_pool (snd (call_tool env uid sid req m)) =
           release_connection sid c (connection_pool m1) \<and>
    fst (call_tool env uid sid req m) =
      (case invoke_on_client env sid cfg c req of Inl e \<Rightarrow> error_response e sid | Inr r \<Rightarrow> r) \<and>
    c \<notin> active_of (connection_pool m) sid \<and>
    c \<in> active_of (connection_pool m1) sid \<and>
    c \<notin> active_of (connection_pool (snd (call_tool env uid sid req m))) sid \<and>
    active_of (connection_pool (snd (call_tool env uid sid req m))) sid' =
      active_of (connection_pool m) sid' \<and>
    card (active_of (connection_pool (snd (call_tool env uid sid req m))) sid) =
      card (active_of (connection_pool m) sid) \<and>
    idle_of (connection_pool (snd (call_tool env uid sid req m))) sid =
      butlast (idle_of (connection_pool m) sid) @ [c] \<and>
    count_list (idle_of (connection_pool (snd (call_tool env uid sid req m))) sid) c = 1"
proof -
  from call_tool_acquire_InrD[OF assms(2)] obtain url where
    got: "get_connection sid url (case sd_config cfg of None \<Rightarrow> [] | Some k \<Rightarrow> k) (connection_pool m)
            = (Inr c, connection_pool m1)"
    by blast
  have ok: "pool_ok (connection_pool m)"
    using assms(1) by (rule pool_reachable_ok)
  note v = acquire_release_views[OF ok got]
  have after: "connection_pool (snd (call_tool env uid sid req m)) =
      release_connection sid c (connection_pool m1)"
    by (simp add: call_tool_acquired[OF assms(2)])
  have "count_list (butlast (idle_of (connection_pool m) sid) @ [c]) c = 1"
    using v(5) by (simp add: count_list_0_iff)
  with v show ?thesis
    unfolding after by (simp add: call_tool_acquired[OF assms(2)])
qed

theorem call_tool_releases_witness:
  "pool_reachable (connection_pool manager_busy) \<and>
   card (active_of (connection_pool manager_busy) ''w'') = 1 \<and>
   success (fst (call_tool env_ok ''u'' ''w'' weather_request manager_busy)) \<and>
   card (active_of (connection_pool (snd (call_tool env_ok ''u'' ''w'' weather_request manager_busy))) ''w'') = 1 \<and>
   idle_of (connection_pool (snd (call_tool env_ok ''u'' ''w'' weather_request manager_busy))) ''w'' = [1] \<and>
   \<not> success (fst (call_tool env_tool_raises ''u'' ''w'' weather_request manager_busy)) \<and>
   card (active_of (connection_pool (snd (call_tool env_tool_raises ''u'' ''w'' weather_request manager_busy))) ''w'') = 1 \<and>
   idle_of (connection_pool (snd (call_tool env_tool_raises ''u'' ''w'' weather_request manager_busy))) ''w'' = [1]"
proof -
  obtain m1 where a1: "call_tool_acquire env_ok ''u'' ''w'' manager_busy = Inr (weather_descriptor, 1, m1)"
    using acquire_busy[OF env_http_get(1)] by blast
  obtain m2 where a2: "call_tool_acquire env_tool_raises ''u'' ''w'' manager_busy = Inr (weather_descriptor, 1, m2)"
    using acquire_busy[OF env_http_get(3)] by blast
  note t1 = call_tool_releases[OF manager_busy_reachable a1, of weather_request "''w''"]
  note t2 = call_tool_releases[OF manager_busy_reachable a2, of weather_request "''w''"]
  have "fst (call_tool env_ok ''u'' ''w'' weather_request manager_busy) =
      (case invoke_on_client env_ok ''w'' weather_descriptor 1 weather_request of
         Inl e \<Rightarrow> error_response e ''w'' | Inr r \<Rightarrow> r)"
    and "fst (call_tool env_tool_raises ''u'' ''w'' weather_request manager_busy) =
      (case invoke_on_client env_tool_raises ''w'' weather_descriptor 1 weather_request of
         Inl e \<Rightarrow> error_response e ''w'' | Inr r \<Rightarrow> r)"
    using t1 t2 by blast+
  then have responses: "success (fst (call_tool env_ok ''u'' ''w'' weather_request manager_busy))"
    "\<not> success (fst (call_tool env_tool_raises ''u'' ''w'' weather_request manager_busy))"
    by (simp_all add: invoke_examples error_response_def)
  have "card (active_of (connection_pool (snd (call_tool env_ok ''u'' ''w'' weather_request manager_busy))) ''w'')
      = card (active_of (connection_pool manager_busy) ''w'')"
    and "card (active_of (connection_pool (snd (call_tool env_tool_raises ''u'' ''w'' weather_request manager_busy))) ''w'')
      = card (active_of (connection_pool manager_busy) ''w'')"
    and "idle_of (connection_pool (snd (call_tool env_ok ''u'' ''w'' weather_request manager_busy))) ''w''
      = butlast (idle_of (connection_pool manager_busy) ''w'') @ [1]"
    and "idle_of (connection_pool (snd (call_tool env_tool_raises ''u'' ''w'' weather_request manager_busy))) ''w''
      = butlast (idle_of (connection_pool manager_busy) ''w'') @ [1]"
    using t1 t2 by blast+
  then show ?thesis
    using responses by (simp add: manager_busy_reachable manager_busy_views)
qed

text \<open>
  C8 as the code has it. A client whose connect step (\<open>__aenter__\<close>) or invoke step
  (\<open>call_tool\<close>) raises is released like any other: the call answers with the error
  response, the client is put at the end of its provider's idle list, and the next
  \<open>get_connection\<close> for that provider returns this very client.
\<close>

theorem call_tool_failed_client_pooled:
  assumes "pool_reachable (connection_pool m)"
    and "call_tool_acquire env uid sid m = Inr (cfg, c, m1)"
    and "(\<not> is_connected env c \<and> aenter env c = Some e) \<or>
         ((is_connected env c \<or> aenter env c = None) \<and>
          client_call_tool env c (tool_name req) (parameters req) = Inl e)"
  shows "\<not> success (fst (call_tool env uid sid req m)) \<and>
    idle_of (connection_pool (snd (call_tool env uid sid req m))) sid =
      butlast (idle_of (connection_pool m) sid) @ [c] \<and>
    fst (get_connection sid url' cfg' (connection_pool (snd (call_tool env uid sid req m)))) = Inr c"
proof -
  from call_tool_acquire_InrD[OF assms(2)] obtain url where
    got: "get_connection sid url (case sd_config cfg of None \<Rightarrow> [] | Some k \<Rightarrow> k) (connection_pool m)
            = (Inr c, connection_pool m1)"
    by blast
  have ok: "pool_ok (connection_pool m)"
    using assms(1) by (rule pool_reachable_ok)
  note v = acquire_release_views[OF ok got]
  have after: "connection_pool (snd (call_tool env uid sid req m)) =
      release_connection sid c (connection_pool m1)"
    by (simp add: call_tool_acquired[OF assms(2)])
  from assms(3) have "\<exists>e'. invoke_on_client env sid cfg c req = Inl e'"
    by (cases "is_connected env c") (auto simp add: invoke_on_client_def execute_tool_def)
  then have "\<not> success (fst (call_tool env uid sid req m))"
    by (auto simp add: call_tool_acquired[OF assms(2)] error_response_def)
  with v(4) show ?thesis
    unfolding after by (simp add: fst_get_connection)
qed

theorem call_tool_failed_client_pooled_witness:
  "pool_reachable (connection_pool manager_busy) \<and>
   \<not> success (fst (call_tool env_tool_raises ''u'' ''w'' weather_request manager_busy)) \<and>
   idle_of (connection_pool (snd (call_tool env_tool_raises ''u'' ''w'' weather_request manager_busy))) ''w'' = [1] \<and>
   fst (get_connection ''w'' ''http://w'' []
         (connection_pool (snd (call_tool env_tool_raises ''u'' ''w'' weather_request manager_busy)))) = Inr 1"
proof -
  obtain m1 where a: "call_tool_acquire env_tool_raises ''u'' ''w'' manager_busy = Inr (weather_descriptor, 1, m1)"
    using acquire_busy[OF env_http_get(3)] by blast
  have raises: "(\<not> is_connected env_tool_raises 1 \<and> aenter env_tool_raises 1 = Some (Exception ''boom'')) \<or>
      ((is_connected env_tool_raises 1 \<or> aenter env_tool_raises 1 = None) \<and>
       client_call_tool env_tool_raises 1 (tool_name weather_request) (parameters weather_request)
         = Inl (Exception ''boom''))"
    by (simp add: env_tool_raises_def env_ok_def)
  note t = call_tool_failed_client_pooled[OF manager_busy_reachable a raises, of "''http://w''" "[]"]
  then show ?thesis
    by (simp add: manager_busy_reachable manager_busy_views)
qed

text \<open>
  C8 as stated fails: in the example the client's connect step raises, and after the call
  the client is in the idle list of its provider, from which the next acquisition takes it.
\<close>

theorem broken_client_reused_counterexample:
  "error (fst (call_tool env_refused ''u'' ''w'' weather_request manager_u)) = Some ''connection refused'' \<and>
   idle_of (connection_pool (snd (call_tool env_refused ''u'' ''w'' weather_request manager_u))) ''w'' = [0] \<and>
   fst (get_connection ''w'' ''http://w'' []
         (connection_pool (snd (call_tool env_refused ''u'' ''w'' weather_request manager_u)))) = Inr 0"
proof -
  obtain m1 where a: "call_tool_acquire env_refused ''u'' ''w'' manager_u = Inr (weather_descriptor, 0, m1)"
    using acquire_u[OF env_http_get(2)] by blast
  then obtain url where
    got: "get_connection ''w'' url (case sd_config weather_descriptor of None \<Rightarrow> [] | Some k \<Rightarrow> k)
            (connection_pool manager_u) = (Inr 0, connection_pool m1)"
    using call_tool_acquire_InrD by blast
  have "pool_ok (connection_pool manager_u)"
    unfolding manager_u_fields by (intro pool_reachable_ok default_pool_reachable)
  from acquire_release_views(4)[OF this got]
  have idle: "idle_of (release_connection ''w'' 0 (connection_pool m1)) ''w'' = [0]"
    by (simp add: manager_u_fields default_pool_def pool_views)
  show ?thesis
    by (simp add: call_tool_acquired[OF a] invoke_examples error_response_def idle fst_get_connection)
qed

text \<open>
  C7 as the code has it. After an acquisition, a call whose client connects and whose tool
  call returns answers with a success response holding the unpacked result and the metadata
  \<open>server_id\<close>, \<open>server_name\<close>, \<open>execution_time\<close>; a call whose connect step or tool
  call raises answers with a failure response holding the exception's text (prefixed
  "Tool execution failed: " for the tool call) and the metadata \<open>server_id\<close> alone.
\<close>

theorem call_tool_response_metadata:
  assumes "call_tool_acquire env uid sid m = Inr (cfg, c, m1)"
  shows
    "((is_connected env c \<or> aenter env c = None) \<and>
        client_call_tool env c (tool_name req) (parameters req) = Inr r \<longrightarrow>
        fst (call_tool env uid sid req m) =
          \<lparr> success = True,
            result = Some (case attr_content r of Some x \<Rightarrow> x
                           | None \<Rightarrow> (case attr_text r of Some t \<Rightarrow> t | None \<Rightarrow> whole_result r)),
            error = None,
            metadata = [(''server_id'', PStr sid),
                        (''server_name'', (case sd_name cfg of None \<Rightarrow> PNone | Some n \<Rightarrow> n)),
                        (''execution_time'', PStr (utcnow_isoformat env))] \<rparr>) \<and>
     (\<not> is_connected env c \<and> aenter env c = Some e \<longrightarrow>
        fst (call_tool env uid sid req m) =
          \<lparr> success = False, result = None, error = Some (str_exn e),
            metadata = [(''server_id'', PStr sid)] \<rparr>) \<and>
     ((is_connected env c \<or> aenter env c = None) \<and>
        client_call_tool env c (tool_name req) (parameters req) = Inl e \<longrightarrow>
        fst (call_tool env uid sid req m) =
          \<lparr> success = False, result = None,
            error = Some (''Tool execution failed: '' @ str_exn e),
            metadata = [(''server_id'', PStr sid)] \<rparr>)"
  by (auto simp add: call_tool_acquired[OF assms] invoke_on_client_def execute_tool_def
      error_response_def)

theorem call_tool_response_metadata_witness:
  "fst (call_tool env_ok ''u'' ''w'' weather_request manager_u) =
     \<lparr> success = True, result = Some (PStr ''sunny''), error = None,
       metadata = [(''server_id'', PStr ''w''), (''server_name'', PStr ''Weather''),
                   (''execution_time'', PStr ''2024-01-01T00:00:00'')] \<rparr> \<and>
   fst (call_tool env_refused ''u'' ''w'' weather_request manager_u) =
     \<lparr> success = False, result = None, error = Some ''connection refused'',
       metadata = [(''server_id'', PStr ''w'')] \<rparr>"
proof -
  obtain m1 where a1: "call_tool_acquire env_ok ''u'' ''w'' manager_u = Inr (weather_descriptor, 0, m1)"
    using acquire_u[OF env_http_get(1)] by blast
  obtain m2 where a2: "call_tool_acquire env_refused ''u'' ''w'' manager_u = Inr (weather_descriptor, 0, m2)"
    using acquire_u[OF env_http_get(2)] by blast
  have ok: "(is_connected env_ok 0 \<or> aenter env_ok 0 = None) \<and>
      client_call_tool env_ok 0 (tool_name weather_request) (parameters weather_request) =
        Inr \<lparr> attr_content = Some (PStr ''sunny''), attr_text = None, whole_result = PNone \<rparr>"
    by (simp add: env_ok_def)
  have refused: "\<not> is_connected env_refused 0 \<and> aenter env_refused 0 = Some (Exception ''connection refused'')"
    by (simp add: env_refused_def env_ok_def)
  show ?thesis
    using call_tool_response_metadata[OF a1, of weather_request
        "\<lparr> attr_content = Some (PStr ''sunny''), attr_text = None, whole_result = PNone \<rparr>"
        "Exception ''x''"] ok
      call_tool_response_metadata[OF a2, of weather_request
        "\<lparr> attr_content = None, attr_text = None, whole_result = PNone \<rparr>"
        "Exception ''connection refused''"] refused
    by (simp add: weather_descriptor_def env_ok_def)
qed

text \<open>
  C7 as stated fails: when the tool call raises, the failure response carries
  \<open>server_id\<close> only, neither the server's name nor a timestamp.
\<close>

theorem failure_metadata_counterexample:
  "metadata (fst (call_tool env_tool_raises ''u'' ''w'' weather_request manager_u)) =
     [(''server_id'', PStr ''w'')] \<and>
   error (fst (call_tool env_tool_raises ''u'' ''w'' weather_request manager_u)) =
     Some ''Tool execution failed: boom''"
proof -
  obtain m1 where a: "call_tool_acquire env_tool_raises ''u'' ''w'' manager_u = Inr (weather_descriptor, 0, m1)"
    using acquire_u[OF env_http_get(3)] by blast
  show ?thesis
    by (simp add: call_tool_acquired[OF a] invoke_examples error_response_def)
qed

section \<open>The claims about access, the descriptor cache and the health check\<close>

text \<open>
  C4. For a user with no loaded list, or with a list (each entry carrying a
  \<open>server_id\<close>, as the registry's \<open>UserServerConfigResponse\<close> has it) in which no entry
  enables the server, \<open>_user_has_access\<close> returns \<open>False\<close> and does not raise;
  \<open>call_tool\<close> then answers with a failure response and leaves the connection pool
  exactly as it was, and once the server's descriptor has been resolved the response is the
  access-denied one. (The descriptor is resolved first: an unknown server is answered
  with "not found" before the access check is reached.)
\<close>

theorem no_access_no_pool:
  assumes "map_of (user_servers m) uid = None \<or>
     (\<exists>servers. map_of (user_servers m) uid = Some servers \<and>
        (\<forall>s \<in> set servers. map_of s ''server_id'' \<noteq> None \<and>
           \<not> (map_of s ''server_id'' = Some (PStr sid) \<and> truthy (dict_get s ''enabled'' (PBool False)))))"
  shows "user_has_access uid sid m = Inr False \<and>
     connection_pool (snd (call_tool env uid sid req m)) = connection_pool m \<and>
     \<not> success (fst (call_tool env uid sid req m)) \<and>
     (fst (get_server_config env sid m) = Inr (Some cfg) \<and> sd_truthy cfg \<longrightarrow>
        fst (call_tool env uid sid req m) =
          \<lparr> success = False, result = None,
            error = Some (''User '' @ uid @ '' does not have access to server '' @ sid),
            metadata = [] \<rparr>)"
proof -
  have denied: "user_has_access uid sid m = Inr False"
    using assms
  proof
    assume "map_of (user_servers m) uid = None"
    then show ?thesis
      by (simp add: user_has_access_def dict_get_def)
  next
    assume "\<exists>servers. map_of (user_servers m) uid = Some servers \<and>
        (\<forall>s \<in> set servers. map_of s ''server_id'' \<noteq> None \<and>
           \<not> (map_of s ''server_id'' = Some (PStr sid) \<and> truthy (dict_get s ''enabled'' (PBool False))))"
    then obtain servers where "map_of (user_servers m) uid = Some servers"
      and "\<forall>s \<in> set servers. map_of s ''server_id'' \<noteq> None \<and>
           \<not> (map_of s ''server_id'' = Some (PStr sid) \<and> truthy (dict_get s ''enabled'' (PBool False)))"
      by blast
    then show ?thesis
      using any_enabled_none[of servers sid] by (simp add: user_has_access_def dict_get_def)
  qed
  obtain r m0 where g: "get_server_config env sid m = (r, m0)"
    by (cases "get_server_config env sid m")
  have frame: "connection_pool m0 = connection_pool m"
    and access: "user_has_access uid sid m0 = Inr False"
    using get_server_config_frame[of env sid m] user_has_access_get_server_config[of uid sid env sid m]
      g denied by simp_all
  have "\<exists>resp. call_tool_acquire env uid sid m = Inl (resp, m0) \<and> \<not> success resp \<and>
      (r = Inr (Some cfg) \<and> sd_truthy cfg \<longrightarrow>
         resp = \<lparr> success = False, result = None,
                  error = Some (''User '' @ uid @ '' does not have access to server '' @ sid),
                  metadata = [] \<rparr>)"
    by (auto simp add: call_tool_acquire_def g access error_response_def split: sum.splits option.splits)
  then obtain resp where "call_tool env uid sid req m = (resp, m0)" and "\<not> success resp"
    and "r = Inr (Some cfg) \<and> sd_truthy cfg \<longrightarrow>
         resp = \<lparr> success = False, result = None,
                  error = Some (''User '' @ uid @ '' does not have access to server '' @ sid),
                  metadata = [] \<rparr>"
    using call_tool_early by blast
  with denied frame g show ?thesis
    by simp
qed

lemma manager_d_fields:
  "registry_url manager_d = ''http://r''"
  "connection_pool manager_d = default_pool"
  "server_cache manager_d = []"
  "cache_ttl manager_d = 300000000"
  "last_cache_update manager_d = 0"
  "user_servers manager_d =
     [(''u'', [[(''server_id'', PStr ''w''), (''enabled'', PBool True)]]),
      (''d'', [[(''server_id'', PStr ''w''), (''enabled'', PBool False)]])]"
  by (simp_all add: manager_d_def initialize_user_servers_def manager_u_fields)

lemma get_server_config_w_uncached:
  assumes "server_cache m = []" and "registry_url m = ''http://r''"
  shows "fst (get_server_config env_ok ''w'' m) = Inr (Some weather_descriptor)"
  by (simp add: assms get_server_config_def fetch_server_config_def env_ok_def registry_up_def)

theorem no_access_no_pool_witness:
  "user_has_access ''v'' ''w'' manager_d = Inr False \<and>
   connection_pool (snd (call_tool env_ok ''v'' ''w'' weather_request manager_d)) = connection_pool manager_d \<and>
   fst (call_tool env_ok ''v'' ''w'' weather_request manager_d) =
     \<lparr> success = False, result = None,
       error = Some ''User v does not have access to server w'', metadata = [] \<rparr> \<and>
   user_has_access ''d'' ''w'' manager_d = Inr False \<and>
   connection_pool (snd (call_tool env_ok ''d'' ''w'' weather_request manager_d)) = connection_pool manager_d \<and>
   fst (call_tool env_ok ''d'' ''w'' weather_request manager_d) =
     \<lparr> success = False, result = None,
       error = Some ''User d does not have access to server w'', metadata = [] \<rparr>"
proof -
  let ?hyp = "\<lambda>uid. map_of (user_servers manager_d) uid = None \<or>
     (\<exists>servers. map_of (user_servers manager_d) uid = Some servers \<and>
        (\<forall>s \<in> set servers. map_of s ''server_id'' \<noteq> None \<and>
           \<not> (map_of s ''server_id'' = Some (PStr ''w'') \<and> truthy (dict_get s ''enabled'' (PBool False)))))"
  have v: "?hyp ''v''" and d: "?hyp ''d''"
    by (simp_all add: manager_d_fields dict_get_def)
  have cfg: "fst (get_server_config env_ok ''w'' manager_d) = Inr (Some weather_descriptor)"
    "sd_truthy weather_descriptor"
    by (simp_all add: get_server_config_w_uncached manager_d_fields sd_truthy_def weather_descriptor_def)
  show ?thesis
    using no_access_no_pool[OF v, of env_ok weather_request weather_descriptor]
      no_access_no_pool[OF d, of env_ok weather_request weather_descriptor] cfg
    by simp
qed

text \<open>
  C5 as the code has it. On a cache miss, or once the TTL has elapsed since the cache's last
  update, \<open>_get_server_config\<close> asks the registry, and a failure of that query is not
  covered by the cache: a status other than 200 gives \<open>None\<close>, an exception of the
  request or of decoding the body propagates, in both cases whether or not a cached
  descriptor exists, and the manager is unchanged. Only status 200 with a decodable body
  gives a descriptor, which is then written to the cache.
\<close>

theorem get_server_config_store_failure:
  assumes "map_of (server_cache m) sid = None \<or>
           cache_ttl m \<le> utcnow_check env - last_cache_update m"
  shows
    "(http_get env \<lparr> req_url = registry_url m @ ''/servers/'' @ sid, req_params = [], req_timeout = None \<rparr>
        = HttpReturns code body el \<and> code \<noteq> 200 \<longrightarrow>
        get_server_config env sid m = (Inr None, m)) \<and>
     (http_get env \<lparr> req_url = registry_url m @ ''/servers/'' @ sid, req_params = [], req_timeout = None \<rparr>
        = HttpRaises e \<longrightarrow>
        get_server_config env sid m = (Inl e, m)) \<and>
     (http_get env \<lparr> req_url = registry_url m @ ''/servers/'' @ sid, req_params = [], req_timeout = None \<rparr>
        = HttpReturns 200 (Inl e) el \<longrightarrow>
        get_server_config env sid m = (Inl e, m)) \<and>
     (http_get env \<lparr> req_url = registry_url m @ ''/servers/'' @ sid, req_params = [], req_timeout = None \<rparr>
        = HttpReturns 200 (Inr d) el \<longrightarrow>
        get_server_config env sid m =
          (Inr (Some d), m\<lparr> server_cache := AList.update sid d (server_cache m),
                             last_cache_update := utcnow_store env \<rparr>))"
proof -
  have "get_server_config env sid m = fetch_server_config env sid m"
    using assms by (auto simp add: get_server_config_def split: option.splits)
  then show ?thesis
    by (simp add: fetch_server_config_def)
qed

lemma manager_cached_fields:
  "registry_url manager_cached = ''http://r''"
  "server_cache manager_cached = [(''w'', weather_descriptor)]"
  "cache_ttl manager_cached = 300000000"
  "last_cache_update manager_cached = 63840000000100000"
  by (simp_all add: manager_cached_def get_server_config_def fetch_server_config_def
      manager_u_fields env_ok_def registry_up_def)

theorem get_server_config_store_failure_witness:
  "map_of (server_cache manager_cached) ''w'' = Some weather_descriptor \<and>
   cache_ttl manager_cached \<le> utcnow_check env_down - last_cache_update manager_cached \<and>
   get_server_config env_down ''w'' manager_cached = (Inr None, manager_cached)"
proof -
  have stale: "cache_ttl manager_cached \<le> utcnow_check env_down - last_cache_update manager_cached"
    by (simp add: manager_cached_fields env_down_def env_late_def env_ok_def)
  then have hyp: "map_of (server_cache manager_cached) ''w'' = None \<or>
      cache_ttl manager_cached \<le> utcnow_check env_down - last_cache_update manager_cached"
    by simp
  have down: "http_get env_down
        \<lparr> req_url = registry_url manager_cached @ ''/servers/'' @ ''w'', req_params = [], req_timeout = None \<rparr>
      = HttpReturns 503
          (Inr \<lparr> sd_name = None, sd_url = None, sd_config = None,
                 sd_other = [(''detail'', PStr ''Service Unavailable'')] \<rparr>) (1 / 10)"
    by (simp add: env_down_def env_late_def env_ok_def)
  show ?thesis
    using get_server_config_store_failure[OF hyp, of 503
        "Inr \<lparr> sd_name = None, sd_url = None, sd_config = None,
               sd_other = [(''detail'', PStr ''Service Unavailable'')] \<rparr>" "1 / 10"] down stale
    by (simp add: manager_cached_fields)
qed

text \<open>
  C5 as stated fails: \<open>''w''\<close> is cached, the TTL has elapsed, the registry answers 503,
  and the answer is \<open>None\<close>, not the cached descriptor.
\<close>

theorem stale_value_not_returned_counterexample:
  "map_of (server_cache manager_cached) ''w'' = Some weather_descriptor \<and>
   fst (get_server_config env_down ''w'' manager_cached) = Inr None"
  by (simp add: get_server_config_def fetch_server_config_def manager_cached_fields
      env_down_def env_late_def env_ok_def)

text \<open>
  C6 as the code has it. The cache has one timestamp, \<open>_last_cache_update\<close>, set by
  every successful fetch of any provider. A cached descriptor is returned as it is while
  less than the TTL has elapsed since that timestamp, and is fetched again once the TTL has
  elapsed since it. A successful fetch of another provider keeps the entry and moves the
  timestamp, so the entry is then served for a further TTL counted from that other fetch,
  however long ago it was fetched itself.
\<close>

theorem cache_ttl_is_cache_wide:
  assumes "map_of (server_cache m) sid = Some d"
  shows
    "(utcnow_check env - last_cache_update m < cache_ttl m \<longrightarrow>
        get_server_config env sid m = (Inr (Some d), m)) \<and>
     (cache_ttl m \<le> utcnow_check env - last_cache_update m \<longrightarrow>
        get_server_config env sid m = fetch_server_config env sid m) \<and>
     (sid' \<noteq> sid \<and>
      http_get env' \<lparr> req_url = registry_url m @ ''/servers/'' @ sid', req_params = [], req_timeout = None \<rparr>
        = HttpReturns 200 (Inr d') el \<and>
      utcnow_check env - utcnow_store env' < cache_ttl m \<longrightarrow>
        last_cache_update (snd (fetch_server_config env' sid' m)) = utcnow_store env' \<and>
        get_server_config env sid (snd (fetch_server_config env' sid' m)) =
          (Inr (Some d), snd (fetch_server_config env' sid' m)))"
  using assms
  by (simp add: get_server_config_def fetch_server_config_def update_conv')

lemma manager_cached_v_fields:
  "registry_url manager_cached_v = ''http://r''"
  "server_cache manager_cached_v = [(''w'', weather_descriptor), (''v'', other_descriptor)]"
  "cache_ttl manager_cached_v = 300000000"
  "last_cache_update manager_cached_v = 63840000240100000"
  by (simp_all add: manager_cached_v_def get_server_config_def fetch_server_config_def
      manager_cached_fields env_v_def env_ok_def registry_later_def)

theorem cache_ttl_is_cache_wide_witness:
  "map_of (server_cache manager_cached) ''w'' = Some weather_descriptor \<and>
   manager_cached_v = snd (fetch_server_config env_v ''v'' manager_cached) \<and>
   last_cache_update manager_cached_v = utcnow_store env_v \<and>
   get_server_config env_late ''w'' manager_cached_v = (Inr (Some weather_descriptor), manager_cached_v) \<and>
   get_server_config env_late ''w'' manager_cached = fetch_server_config env_late ''w'' manager_cached"
proof -
  have cached: "map_of (server_cache manager_cached) ''w'' = Some weather_descriptor"
    by (simp add: manager_cached_fields)
  have fetched: "manager_cached_v = snd (fetch_server_config env_v ''v'' manager_cached)"
    by (simp add: manager_cached_v_def get_server_config_def manager_cached_fields)
  have other: "''v'' \<noteq> ''w'' \<and>
      http_get env_v \<lparr> req_url = registry_url manager_cached @ ''/servers/'' @ ''v'',
                       req_params = [], req_timeout = None \<rparr>
        = HttpReturns 200 (Inr other_descriptor) (1 / 10) \<and>
      utcnow_check env_late - utcnow_store env_v < cache_ttl manager_cached"
    by (simp add: env_v_def env_late_def env_ok_def registry_later_def manager_cached_fields)
  have stale: "cache_ttl manager_cached \<le> utcnow_check env_late - last_cache_update manager_cached"
    by (simp add: env_late_def env_ok_def manager_cached_fields)
  show ?thesis
    using cache_ttl_is_cache_wide[OF cached, of env_late "''v''" env_v other_descriptor "1 / 10"]
      other stale cached
    unfolding fetched[symmetric] by simp
qed

text \<open>
  C6 as stated fails: \<open>''w''\<close> was fetched six minutes before the call \<open>env_late\<close>, more
  than the TTL of five minutes, and the registry has a different descriptor for it by
  now; because \<open>''v''\<close> was fetched two minutes before the call, the old descriptor of
  \<open>''w''\<close> is returned and the cache is not refreshed.
\<close>

theorem stale_entry_served_counterexample:
  "last_cache_update manager_cached = utcnow_store env_ok \<and>
   timedelta_minutes 5 < utcnow_check env_late - utcnow_store env_ok \<and>
   http_get env_late \<lparr> req_url = ''http://r/servers/w'', req_params = [], req_timeout = None \<rparr>
     = HttpReturns 200 (Inr moved_descriptor) (1 / 10) \<and>
   moved_descriptor \<noteq> weather_descriptor \<and>
   get_server_config env_late ''w'' manager_cached_v = (Inr (Some weather_descriptor), manager_cached_v)"
  by (simp add: get_server_config_def manager_cached_fields manager_cached_v_fields
      env_late_def env_ok_def registry_later_def timedelta_minutes_def
      moved_descriptor_def weather_descriptor_def)

text \<open>
  C9 as the code has it. For a server whose URL the pool has stored (at an acquisition),
  \<open>health_check\<close> sends GET \<open>{url}/health\<close> with a timeout of five seconds: status 200
  gives \<open>healthy\<close> with the elapsed time, every other status (the other 2xx included)
  gives \<open>unhealthy\<close> with the status code, and an exception gives \<open>error\<close> with its
  text. For a server the pool has stored nothing for, it gives \<open>error\<close>, "Server not
  configured", whatever the environment is.
\<close>

theorem health_check_outcomes:
  "(map_of (server_configs p) sid = None \<longrightarrow>
      fst (health_check env sid p) =
        [(''status'', PStr ''error''), (''message'', PStr ''Server not configured'')]) \<and>
   (map_of (server_configs p) sid = Some cfg \<longrightarrow>
      (health_http_get env \<lparr> req_url = cfg_url cfg @ ''/health'', req_params = [], req_timeout = Some 5 \<rparr>
         = HttpReturns 200 body el \<longrightarrow>
       fst (health_check env sid p) =
         [(''status'', PStr ''healthy''), (''response_time'', PFloat el)]) \<and>
      (health_http_get env \<lparr> req_url = cfg_url cfg @ ''/health'', req_params = [], req_timeout = Some 5 \<rparr>
         = HttpReturns code body el \<and> code \<noteq> 200 \<longrightarrow>
       fst (health_check env sid p) =
         [(''status'', PStr ''unhealthy''), (''status_code'', PInt code)]) \<and>
      (health_http_get env \<lparr> req_url = cfg_url cfg @ ''/health'', req_params = [], req_timeout = Some 5 \<rparr>
         = HttpRaises e \<longrightarrow>
       fst (health_check env sid p) =
         [(''status'', PStr ''error''), (''message'', PStr (str_exn e))]))"
  by (simp add: health_check_def Let_def)

lemma pool_two_active_config:
  "map_of (server_configs pool_two_active) ''w'' = Some \<lparr> cfg_url = ''http://w'', cfg_config = [] \<rparr>"
  "map_of (server_configs pool_two_active) ''v'' = None"
  by (simp_all add: pool_two_active_def get_connection_def init_pool_def pool_unfold
      split: option.splits prod.splits)

theorem health_check_outcomes_witness:
  "fst (health_check (health_env_of (HttpReturns 200 (Inr ()) (1 / 50))) ''w'' pool_two_active) =
     [(''status'', PStr ''healthy''), (''response_time'', PFloat (1 / 50))] \<and>
   fst (health_check (health_env_of (HttpReturns 503 (Inr ()) (1 / 50))) ''w'' pool_two_active) =
     [(''status'', PStr ''unhealthy''), (''status_code'', PInt 503)] \<and>
   fst (health_check (health_env_of (HttpRaises (Exception ''timed out''))) ''w'' pool_two_active) =
     [(''status'', PStr ''error''), (''message'', PStr ''timed out'')] \<and>
   fst (health_check (health_env_of (HttpReturns 200 (Inr ()) (1 / 50))) ''v'' pool_two_active) =
     [(''status'', PStr ''error''), (''message'', PStr ''Server not configured'')]"
proof -
  have req: "health_http_get (health_env_of outcome)
      \<lparr> req_url = ''http://w/health'', req_params = [], req_timeout = Some 5 \<rparr> = outcome" for outcome
    by (simp add: health_env_of_def)
  show ?thesis
    using health_check_outcomes[of pool_two_active "''w''" "health_env_of (HttpReturns 200 (Inr ()) (1 / 50))"
        "\<lparr> cfg_url = ''http://w'', cfg_config = [] \<rparr>" "Inr ()" "1 / 50" 503 "Exception ''timed out''"]
      health_check_outcomes[of pool_two_active "''w''" "health_env_of (HttpReturns 503 (Inr ()) (1 / 50))"
        "\<lparr> cfg_url = ''http://w'', cfg_config = [] \<rparr>" "Inr ()" "1 / 50" 503 "Exception ''timed out''"]
      health_check_outcomes[of pool_two_active "''w''" "health_env_of (HttpRaises (Exception ''timed out''))"
        "\<lparr> cfg_url = ''http://w'', cfg_config = [] \<rparr>" "Inr ()" "1 / 50" 503 "Exception ''timed out''"]
      health_check_outcomes[of pool_two_active "''v''" "health_env_of (HttpReturns 200 (Inr ()) (1 / 50))"
        "\<lparr> cfg_url = ''http://w'', cfg_config = [] \<rparr>" "Inr ()" "1 / 50" 503 "Exception ''timed out''"]
    by (simp add: pool_two_active_config req)
qed

text \<open>
  C9 as stated fails: the health endpoint answers 204, a 2xx status, and the server is
  reported unhealthy.
\<close>

theorem health_204_unhealthy_counterexample:
  "fst (health_check (health_env_of (HttpReturns 204 (Inr ()) (1 / 50))) ''w'' pool_two_active) =
     [(''status'', PStr ''unhealthy''), (''status_code'', PInt 204)]"
  by (simp add: health_check_def pool_two_active_config health_env_of_def)

section \<open>The tasks of a batch\<close>























section \<open>The claim about \<open>batch_call_tools\<close>\<close>



text \<open>
  A task that receives a \<open>CancelledError\<close> has released its client, and its place in
  the result holds the \<open>CancelledError\<close> itself, which the last loop does not convert.
\<close>

lemma cancelled_task_example:
  "fst (batch_call_tools [] tasks_second_cancelled ''u'' three_requests manager_u) =
     Some [Returned weather_success, RaisedCancelled, Returned weather_success]"
  "active_of (connection_pool (snd (batch_call_tools [] tasks_second_cancelled ''u'' three_requests manager_u))) ''w''
     = {}"
  by code_simp+



end
